theory Spec2Isabelle
  imports Complex_Main "HOL-Library.AList" "HOL-Library.Sublist"
begin

section \<open>Python values used by \<open>performance_benchmark.py\<close>\<close>

text \<open>
  The exceptions that the modelled code can raise. \<open>ConnectorOperationError\<close> stands for
  whatever the external connector raises; its payload is the message.
\<close>

datatype error =
    FileExistsError
  | FileNotFoundError
  | NotADirectoryError
  | IsADirectoryError
  | PermissionError
  | ZeroDivisionError
  | ConnectorOperationError string

text \<open>\<open>range(n)\<close> on Python's unbounded integers: empty when \<open>n \<le> 0\<close>.\<close>

definition py_range :: "int \<Rightarrow> int list" where
  "py_range n = map int [0..<nat n]"

text \<open>\<open>a % b\<close> and \<open>a / b\<close>: both raise on a zero divisor. Python's \<open>%\<close> on integers takes the
  sign of the divisor, as \<open>mod\<close> on \<^typ>\<open>int\<close> does.\<close>

definition py_mod :: "int \<Rightarrow> int \<Rightarrow> error + int" where
  "py_mod a b = (if b = 0 then Inl ZeroDivisionError else Inr (a mod b))"

definition py_truediv :: "real \<Rightarrow> real \<Rightarrow> error + real" where
  "py_truediv a b = (if b = 0 then Inl ZeroDivisionError else Inr (a / b))"

text \<open>\<open>s * k\<close> on a string: the empty string when \<open>k \<le> 0\<close>.\<close>

definition str_times :: "string \<Rightarrow> int \<Rightarrow> string" where
  "str_times s k = concat (replicate (nat k) s)"

text \<open>\<open>sep.join(xs)\<close>.\<close>

fun join :: "string \<Rightarrow> string list \<Rightarrow> string" where
  "join sep [] = []"
| "join sep [x] = x"
| "join sep (x # y # ys) = x @ sep @ join sep (y # ys)"

text \<open>\<open>sub in s\<close> on strings: \<open>sub\<close> occurs in \<open>s\<close> as a contiguous block, compared character by
  character (so case-sensitively).\<close>

fun str_in :: "string \<Rightarrow> string \<Rightarrow> bool" where
  "str_in sub [] = (sub = [])"
| "str_in sub (c # cs) = (prefix sub (c # cs) \<or> str_in sub cs)"

subsection \<open>Integer formatting\<close>

definition digit_char :: "nat \<Rightarrow> char" where
  "digit_char d = ''0123456789'' ! d"

fun digits :: "nat \<Rightarrow> string" where
  "digits n = (if n < 10 then [digit_char n] else digits (n div 10) @ [digit_char (n mod 10)])"

declare digits.simps [simp del]

text \<open>\<open>str(x)\<close> for an integer, as in \<open>f"rel_{i+1}"\<close>.\<close>

definition str_int :: "int \<Rightarrow> string" where
  "str_int x = (if x < 0 then CHR ''-'' # digits (nat (- x)) else digits (nat x))"

definition zfill :: "nat \<Rightarrow> string \<Rightarrow> string" where
  "zfill w s = replicate (w - length s) CHR ''0'' @ s"

text \<open>The format specification \<open>0wd\<close> (\<open>{x:03d}\<close>, \<open>{x:02d}\<close>): zero padding to a minimum width
  \<open>w\<close>, the sign counted in the width and written before the zeros.\<close>

definition fmt_0d :: "nat \<Rightarrow> int \<Rightarrow> string" where
  "fmt_0d w x =
     (if x < 0 then CHR ''-'' # zfill (w - 1) (digits (nat (- x)))
      else zfill w (digits (nat x)))"

section \<open>The filesystem\<close>

text \<open>
  A path is its list of components. A file holds either text written with \<open>f.write\<close> or
  the document that \<open>json.dump\<close> serialised (kept as the value, with the \<open>indent\<close> argument).
\<close>

type_synonym path = "string list"

datatype json =
    JStr string
  | JNum real
  | JArr "json list"
  | JObj "(string \<times> json) list"

datatype content =
    Text string
  | JsonDump json "nat option"

text \<open>
  \<open>dirs\<close> are the directories that exist, \<open>files\<close> the regular files with their content,
  \<open>undeletable\<close> the entries whose removal the operating system refuses.
\<close>

record filesystem =
  dirs :: "path list"
  files :: "(path \<times> content) list"
  undeletable :: "path list"

definition is_dir :: "filesystem \<Rightarrow> path \<Rightarrow> bool" where
  "is_dir fsys p = (p \<in> set (dirs fsys))"

definition is_file :: "filesystem \<Rightarrow> path \<Rightarrow> bool" where
  "is_file fsys p = (p \<in> fst ` set (files fsys))"

definition read_file :: "filesystem \<Rightarrow> path \<Rightarrow> content option" where
  "read_file fsys p = map_of (files fsys) p"




text \<open>The non-empty prefixes of a path, shortest first: the directories \<open>os.makedirs\<close> visits.\<close>

definition ancestors_and_self :: "path \<Rightarrow> path list" where
  "ancestors_and_self p = map (\<lambda>k. take k p) [1..<Suc (length p)]"

section \<open>The state of a run and its programs\<close>

text \<open>
  One printed line is the list of the pieces of its f-string: literal text, and floats with
  the number of decimals of their format specification (\<open>:.2f\<close>, \<open>:.1f\<close>).
\<close>

datatype piece = Lit string | Flt nat real

text \<open>
  \<open>ticks\<close> counts the readings of \<open>time.perf_counter\<close> taken so far, \<open>stdout\<close> holds the
  printed lines, \<open>rmtree_calls\<close> records the roots passed to \<open>shutil.rmtree\<close>.
\<close>

record world =
  fs :: filesystem
  ticks :: nat
  stdout :: "piece list list"
  rmtree_calls :: "path list"

text \<open>A statement either returns a value or raises; the world it leaves is kept in both cases.\<close>

type_synonym 'a prog = "world \<Rightarrow> (error + 'a) \<times> world"

definition return :: "'a \<Rightarrow> 'a prog" where
  "return x = (\<lambda>w. (Inr x, w))"

definition raise :: "error \<Rightarrow> 'a prog" where
  "raise e = (\<lambda>w. (Inl e, w))"

definition bind :: "'a prog \<Rightarrow> ('a \<Rightarrow> 'b prog) \<Rightarrow> 'b prog" where
  "bind m f = (\<lambda>w. case m w of (Inl e, w') \<Rightarrow> (Inl e, w') | (Inr x, w') \<Rightarrow> f x w')"

definition seq :: "unit prog \<Rightarrow> 'b prog \<Rightarrow> 'b prog" where
  "seq m k = bind m (\<lambda>_. k)"

definition lift :: "error + 'a \<Rightarrow> 'a prog" where
  "lift r = (case r of Inl e \<Rightarrow> raise e | Inr x \<Rightarrow> return x)"

text \<open>\<open>for x in xs: body(x)\<close>.\<close>

fun foreach :: "'a list \<Rightarrow> ('a \<Rightarrow> unit prog) \<Rightarrow> unit prog" where
  "foreach [] body = return ()"
| "foreach (x # xs) body = seq (body x) (foreach xs body)"

text \<open>\<open>try: m finally: fin\<close>. An exception raised by \<open>fin\<close> replaces the outcome of \<open>m\<close>.\<close>

definition try_finally :: "'a prog \<Rightarrow> unit prog \<Rightarrow> 'a prog" where
  "try_finally m fin =
     (\<lambda>w. case m w of (r, w') \<Rightarrow>
        (case fin w' of (Inl e, w'') \<Rightarrow> (Inl e, w'') | (Inr _, w'') \<Rightarrow> (r, w'')))"

subsection \<open>Library calls\<close>

text \<open>\<open>print(line)\<close>.\<close>

definition print :: "piece list \<Rightarrow> unit prog" where
  "print line = (\<lambda>w. (Inr (), w\<lparr>stdout := stdout w @ [line]\<rparr>))"

text \<open>\<open>time.perf_counter()\<close>: the next reading of the host's monotonic clock \<open>clock\<close>.\<close>

definition perf_counter :: "(nat \<Rightarrow> real) \<Rightarrow> real prog" where
  "perf_counter clock = (\<lambda>w. (Inr (clock (ticks w)), w\<lparr>ticks := Suc (ticks w)\<rparr>))"

text \<open>
  \<open>os.makedirs(p, exist_ok=True)\<close>: creates \<open>p\<close> and its missing ancestors. It raises when a
  component of \<open>p\<close> exists as a regular file: \<open>FileExistsError\<close> when that is \<open>p\<close> itself,
  \<open>NotADirectoryError\<close> when it is a proper ancestor.
\<close>

definition makedirs :: "path \<Rightarrow> unit prog" where
  "makedirs p = (\<lambda>w.
     (case filter (is_file (fs w)) (ancestors_and_self p) of
        [] \<Rightarrow> (Inr (), w\<lparr>fs := (fs w)\<lparr>dirs := fold List.insert (ancestors_and_self p) (dirs (fs w))\<rparr>\<rparr>)
      | q # _ \<Rightarrow> (Inl (if q = p then FileExistsError else NotADirectoryError), w)))"

text \<open>
  \<open>with open(p, 'w') as f: f.write(c)\<close> (or \<open>json.dump(v, f)\<close>): creates or truncates the file.
  It raises when \<open>p\<close> is a directory, and when the parent of \<open>p\<close> is not a directory.
\<close>

definition write_file :: "path \<Rightarrow> content \<Rightarrow> unit prog" where
  "write_file p c = (\<lambda>w.
     if p = [] \<or> is_dir (fs w) p then (Inl IsADirectoryError, w)
     else if \<not> is_dir (fs w) (butlast p) then
       (Inl (if filter (is_file (fs w)) (ancestors_and_self (butlast p)) = []
             then FileNotFoundError else NotADirectoryError), w)
     else (Inr (), w\<lparr>fs := (fs w)\<lparr>files := AList.update p c (files (fs w))\<rparr>\<rparr>))"

text \<open>
  \<open>shutil.rmtree(tree, ignore_errors)\<close>: removes every entry at or under \<open>tree\<close> that the
  system lets it remove; an entry stays when it is undeletable or when something under it is.
  With \<open>ignore_errors\<close> false a failed removal raises; with \<open>ignore_errors\<close> true the error
  is dropped and the call returns normally.
\<close>

definition stays :: "filesystem \<Rightarrow> path \<Rightarrow> path \<Rightarrow> bool" where
  "stays fsys tree p =
     (\<not> prefix tree p \<or>
      (\<exists>u \<in> set (undeletable fsys). prefix p u \<and> (is_dir fsys u \<or> is_file fsys u)))"

definition remove_tree :: "path \<Rightarrow> filesystem \<Rightarrow> filesystem" where
  "remove_tree tree fsys =
     fsys\<lparr>dirs := filter (stays fsys tree) (dirs fsys),
          files := filter (\<lambda>(p, c). stays fsys tree p) (files fsys)\<rparr>"

definition rmtree_error :: "path \<Rightarrow> filesystem \<Rightarrow> error option" where
  "rmtree_error tree fsys =
     (if is_file fsys tree then Some NotADirectoryError
      else if \<not> is_dir fsys tree then Some FileNotFoundError
      else if is_dir (remove_tree tree fsys) tree then Some PermissionError
      else None)"

definition rmtree :: "path \<Rightarrow> bool \<Rightarrow> unit prog" where
  "rmtree tree ignore_errors = (\<lambda>w.
     let w' = w\<lparr>fs := remove_tree tree (fs w), rmtree_calls := rmtree_calls w @ [tree]\<rparr>
     in case rmtree_error tree (fs w) of
          None \<Rightarrow> (Inr (), w')
        | Some e \<Rightarrow> if ignore_errors then (Inr (), w') else (Inl e, w'))"

section \<open>\<open>create_performance_test_project\<close>\<close>

definition project_name :: string where
  "project_name = ''PerfTest''"

definition project_dir :: "path \<Rightarrow> path" where
  "project_dir temp_dir = temp_dir @ [project_name]"

definition pbip_file :: "path \<Rightarrow> path" where
  "pbip_file temp_dir = project_dir temp_dir @ [project_name @ ''.pbip'']"

definition semantic_dir :: "path \<Rightarrow> path" where
  "semantic_dir temp_dir = project_dir temp_dir @ [project_name @ ''.SemanticModel'']"

definition tables_dir :: "path \<Rightarrow> path" where
  "tables_dir temp_dir = semantic_dir temp_dir @ [''definition'', ''tables'']"

definition relationships_dir :: "path \<Rightarrow> path" where
  "relationships_dir temp_dir = semantic_dir temp_dir @ [''definition'', ''relationships'']"

definition report_dir :: "path \<Rightarrow> path" where
  "report_dir temp_dir = project_dir temp_dir @ [project_name @ ''.Report'']"

definition definition_dir :: "path \<Rightarrow> path" where
  "definition_dir temp_dir = report_dir temp_dir @ [''definition'']"

definition pages_dir :: "path \<Rightarrow> path" where
  "pages_dir temp_dir = definition_dir temp_dir @ [''pages'']"

text \<open>The literal \<open>{"version": "v"}\<close> written to the \<open>.pbip\<close> file (\<open>1.0\<close>) and to the
  Enhanced \<open>report.json\<close> (\<open>2.0\<close>).\<close>

definition version_text :: "string \<Rightarrow> string" where
  "version_text v =
     ''{'' @ [CHR 0x22] @ ''version'' @ [CHR 0x22] @ '': '' @ [CHR 0x22] @ v @ [CHR 0x22] @ ''}''"

subsection \<open>Tables (source lines 60 to 84)\<close>

definition padding_per_table :: "int \<Rightarrow> string" where
  "padding_per_table avg_table_size_kb = ''    '' @ str_times ''   '' (avg_table_size_kb * 100)"

definition table_name :: "int \<Rightarrow> string" where
  "table_name i = ''Table_'' @ fmt_0d 3 (i + 1)"

definition safe_name :: "int \<Rightarrow> string" where
  "safe_name i =
     (if i mod 3 \<noteq> 0 then table_name i else ''Table With Spaces_'' @ fmt_0d 3 (i + 1))"

definition columns :: string where
  "columns =
     join [CHR ''\<newline>'']
       (map (\<lambda>j. ''    column Column_'' @ fmt_0d 2 (j + 1) @ [CHR ''\<newline>'']
                  @ ''        dataType: string'')
            (py_range 5))"

definition measure_str :: "int \<Rightarrow> string" where
  "measure_str i =
     (if i mod 2 = 0 then
        [CHR ''\<newline>''] @ ''    measure MeasureCount = COUNTROWS('' @ table_name i @ '')''
        @ [CHR ''\<newline>''] @ ''    measure MeasureSum = SUM('' @ table_name i @ ''[Column_01])''
      else [])"

definition table_content :: "int \<Rightarrow> int \<Rightarrow> string" where
  "table_content avg_table_size_kb i =
     ''table '' @ safe_name i @ [CHR ''\<newline>'']
     @ columns @ [CHR ''\<newline>'']
     @ measure_str i @ [CHR ''\<newline>'']
     @ padding_per_table avg_table_size_kb @ [CHR ''\<newline>'']"

definition table_file :: "path \<Rightarrow> int \<Rightarrow> path" where
  "table_file temp_dir i = tables_dir temp_dir @ [table_name i @ ''.tmdl'']"

definition write_table :: "path \<Rightarrow> int \<Rightarrow> int \<Rightarrow> unit prog" where
  "write_table temp_dir avg_table_size_kb i =
     write_file (table_file temp_dir i) (Text (table_content avg_table_size_kb i))"

subsection \<open>Relationships (source lines 86 to 96)\<close>

definition rel_content :: "int \<Rightarrow> string" where
  "rel_content i =
     ''relationship rel_'' @ str_int (i + 1) @ [CHR ''\<newline>'']
     @ ''  cardinality: manyToOne'' @ [CHR ''\<newline>'']
     @ ''  fromTable: Table_'' @ fmt_0d 3 (i + 1) @ [CHR ''\<newline>'']
     @ ''  fromColumn: Column_01'' @ [CHR ''\<newline>'']
     @ ''  toTable: Table_'' @ fmt_0d 3 (i + 2) @ [CHR ''\<newline>'']
     @ ''  toColumn: Column_01'' @ [CHR ''\<newline>'']"

definition rel_file :: "path \<Rightarrow> int \<Rightarrow> path" where
  "rel_file temp_dir i = relationships_dir temp_dir @ [''rel_'' @ str_int (i + 1) @ ''.tmdl'']"

definition write_relationship :: "path \<Rightarrow> int \<Rightarrow> unit prog" where
  "write_relationship temp_dir i = write_file (rel_file temp_dir i) (Text (rel_content i))"

subsection \<open>The report (source lines 98 to 146)\<close>

definition pages_json :: json where
  "pages_json =
     JObj [(''pages'', JArr [JObj [(''name'', JStr ''Page1''), (''displayName'', JStr ''Page 1'')]])]"

definition page_id :: "int \<Rightarrow> string" where
  "page_id v = ''page_'' @ fmt_0d 2 ((v div 5) + 1)"

definition visual_id :: "int \<Rightarrow> string" where
  "visual_id v = ''visual_'' @ fmt_0d 3 (v + 1)"

definition visual_dir :: "path \<Rightarrow> int \<Rightarrow> path" where
  "visual_dir temp_dir v = pages_dir temp_dir @ [page_id v, ''visuals'', visual_id v]"

definition visual_file :: "path \<Rightarrow> int \<Rightarrow> path" where
  "visual_file temp_dir v = visual_dir temp_dir v @ [''visual.json'']"

text \<open>The dictionary \<open>visual_content\<close>; \<open>m\<close> is the value of \<open>v % num_tables\<close>.\<close>

definition visual_content :: "int \<Rightarrow> json" where
  "visual_content m =
     JObj [(''version'', JStr ''1.0''),
           (''config'', JObj [
              (''type'', JStr ''card''),
              (''projections'', JObj [
                 (''Values'', JArr [
                    JObj [(''SourceRef'', JObj [
                       (''Entity'', JStr (''Table_'' @ fmt_0d 3 (m + 1))),
                       (''Property'', JStr ''Column_01'')])]])])])]"

definition write_visual :: "path \<Rightarrow> int \<Rightarrow> int \<Rightarrow> unit prog" where
  "write_visual temp_dir num_tables v =
     seq (makedirs (visual_dir temp_dir v))
       (bind (lift (py_mod v num_tables)) (\<lambda>m.
          write_file (visual_file temp_dir v) (JsonDump (visual_content m) (Some 2))))"

definition report_json :: json where
  "report_json = JObj [(''version'', JStr ''1.0''), (''sections'', JArr [])]"

definition write_report :: "path \<Rightarrow> int \<Rightarrow> int \<Rightarrow> bool \<Rightarrow> unit prog" where
  "write_report temp_dir num_tables num_visuals use_pbir_enhanced =
     (if use_pbir_enhanced then
        seq (makedirs (pages_dir temp_dir))
       (seq (write_file (definition_dir temp_dir @ [''report.json''])
               (Text (version_text ''2.0'')))
       (seq (write_file (pages_dir temp_dir @ [''pages.json'']) (JsonDump pages_json None))
            (foreach (py_range num_visuals) (write_visual temp_dir num_tables))))
      else
        write_file (report_dir temp_dir @ [''report.json'']) (JsonDump report_json None))"

subsection \<open>The whole generator (source lines 22 to 148)\<close>

definition create_performance_test_project ::
  "path \<Rightarrow> int \<Rightarrow> int \<Rightarrow> int \<Rightarrow> bool \<Rightarrow> path prog" where
  "create_performance_test_project temp_dir num_tables num_visuals avg_table_size_kb
       use_pbir_enhanced =
     seq (makedirs (tables_dir temp_dir))
    (seq (makedirs (relationships_dir temp_dir))
    (seq (makedirs (report_dir temp_dir))
    (seq (write_file (pbip_file temp_dir)
            (Text (version_text ''1.0'')))
    (seq (foreach (py_range num_tables) (write_table temp_dir avg_table_size_kb))
    (seq (foreach (py_range (num_tables - 1)) (write_relationship temp_dir))
    (seq (write_report temp_dir num_tables num_visuals use_pbir_enhanced)
         (return (project_dir temp_dir))))))))"

section \<open>\<open>benchmark_operation\<close>\<close>

definition benchmark_operation :: "(nat \<Rightarrow> real) \<Rightarrow> string \<Rightarrow> 'r prog \<Rightarrow> (real \<times> 'r) prog" where
  "benchmark_operation clock name operation =
     bind (perf_counter clock) (\<lambda>start.
     bind operation (\<lambda>result.
     bind (perf_counter clock) (\<lambda>end_time.
       let elapsed_ms = (end_time - start) * 1000 in
       seq (print [Lit ''  '', Lit name, Lit '': '', Flt 2 elapsed_ms, Lit ''ms''])
           (return (elapsed_ms, result)))))"

section \<open>The external connector and the environment of a run\<close>

text \<open>
  \<open>PowerBIPBIPConnector\<close> is imported from another module and is a parameter here: its
  constructor and its four operations, over a connector state \<open>'c\<close> of its own. An operation
  may change the filesystem, and may raise; it returns the connector's new state.
\<close>

record 'c connector_api =
  new_connector :: "bool \<Rightarrow> error + 'c"
  load_project :: "'c \<Rightarrow> path \<Rightarrow> filesystem \<Rightarrow> (error + 'c) \<times> filesystem"
  validate_tmdl_syntax :: "'c \<Rightarrow> filesystem \<Rightarrow> (error + 'c) \<times> filesystem"
  fix_all_dax_quoting :: "'c \<Rightarrow> filesystem \<Rightarrow> (error + 'c) \<times> filesystem"
  rename_table_in_files :: "'c \<Rightarrow> string \<Rightarrow> string \<Rightarrow> filesystem \<Rightarrow> (error + 'c) \<times> filesystem"

text \<open>
  What the host provides: the monotonic clock, the connector, the directory for temporary
  files with the random names \<open>tempfile.mkdtemp\<close> tries in turn, and the working directory.
\<close>

record 'c env =
  clock :: "nat \<Rightarrow> real"
  connector :: "'c connector_api"
  tempdir :: path
  temp_names :: "string list"
  cwd :: path

definition on_fs :: "(filesystem \<Rightarrow> (error + 'a) \<times> filesystem) \<Rightarrow> 'a prog" where
  "on_fs f = (\<lambda>w. case f (fs w) of (r, fsys) \<Rightarrow> (r, w\<lparr>fs := fsys\<rparr>))"

text \<open>\<open>tempfile.mkdtemp(prefix=pre)\<close>: creates a directory that did not exist, under \<open>d\<close>.\<close>

fun mkdtemp_from :: "path \<Rightarrow> string \<Rightarrow> string list \<Rightarrow> path prog" where
  "mkdtemp_from d pre [] = raise FileExistsError"
| "mkdtemp_from d pre (s # ss) = (\<lambda>w.
     if is_dir (fs w) (d @ [pre @ s]) \<or> is_file (fs w) (d @ [pre @ s])
     then mkdtemp_from d pre ss w
     else if \<not> is_dir (fs w) d then (Inl FileNotFoundError, w)
     else (Inr (d @ [pre @ s]), w\<lparr>fs := (fs w)\<lparr>dirs := List.insert (d @ [pre @ s]) (dirs (fs w))\<rparr>\<rparr>))"

definition mkdtemp :: "'c env \<Rightarrow> string \<Rightarrow> path prog" where
  "mkdtemp env pre = mkdtemp_from (tempdir env) pre (temp_names env)"

section \<open>\<open>run_benchmarks\<close>\<close>

record sample =
  operation :: string
  time_ms :: real

record results =
  benchmarks :: "sample list"
  summary :: "(string \<times> real) list"

text \<open>\<open>results["benchmarks"].append({"operation": label, "time_ms": elapsed})\<close>.\<close>

definition append_benchmark :: "results \<Rightarrow> string \<Rightarrow> real \<Rightarrow> results" where
  "append_benchmark res label elapsed =
     res\<lparr>benchmarks := benchmarks res @ [\<lparr>operation = label, time_ms = elapsed\<rparr>]\<rparr>"

definition rule_line :: "char \<Rightarrow> string" where
  "rule_line c = replicate 70 c"

subsection \<open>The three tiers (source lines 189 to 295)\<close>

definition benchmark_small :: "'c env \<Rightarrow> path \<Rightarrow> results \<Rightarrow> results prog" where
  "benchmark_small env temp_dir res0 =
     seq (print [Lit ([CHR ''\<newline>''] @ ''BENCHMARK 1: Small Project (10 tables, 20 visuals)'')])
    (seq (print [Lit (rule_line CHR ''-'')])
    (bind (create_performance_test_project temp_dir 10 20 5 True) (\<lambda>project_path_small.
     bind (lift (new_connector (connector env) False)) (\<lambda>c0.
     bind (benchmark_operation (clock env) ''Load project''
             (on_fs (load_project (connector env) c0 project_path_small))) (\<lambda>(elapsed, c1).
     let res1 = append_benchmark res0 ''load_small'' elapsed in
     bind (benchmark_operation (clock env) ''Validate TMDL syntax''
             (on_fs (validate_tmdl_syntax (connector env) c1))) (\<lambda>(elapsed, c2).
     let res2 = append_benchmark res1 ''validate_small'' elapsed in
     bind (benchmark_operation (clock env) ''Fix DAX quoting''
             (on_fs (fix_all_dax_quoting (connector env) c2))) (\<lambda>(elapsed, c3).
     let res3 = append_benchmark res2 ''fix_dax_small'' elapsed in
     bind (benchmark_operation (clock env) ''Rename table''
             (on_fs (rename_table_in_files (connector env) c3 ''Table_001'' ''Renamed Table'')))
          (\<lambda>(elapsed, c4).
     return (append_benchmark res3 ''rename_table_small'' elapsed)))))))))"

definition benchmark_medium :: "'c env \<Rightarrow> path \<Rightarrow> results \<Rightarrow> results prog" where
  "benchmark_medium env temp_dir res0 =
     seq (print [Lit ([CHR ''\<newline>''] @ ''BENCHMARK 2: Medium Project (50 tables, 100 visuals)'')])
    (seq (print [Lit (rule_line CHR ''-'')])
    (bind (create_performance_test_project temp_dir 50 100 10 True) (\<lambda>project_path_medium.
     bind (lift (new_connector (connector env) False)) (\<lambda>c0.
     bind (benchmark_operation (clock env) ''Load project''
             (on_fs (load_project (connector env) c0 project_path_medium))) (\<lambda>(elapsed, c1).
     let res1 = append_benchmark res0 ''load_medium'' elapsed in
     bind (benchmark_operation (clock env) ''Validate TMDL syntax''
             (on_fs (validate_tmdl_syntax (connector env) c1))) (\<lambda>(elapsed, c2).
     let res2 = append_benchmark res1 ''validate_medium'' elapsed in
     bind (benchmark_operation (clock env) ''Fix DAX quoting''
             (on_fs (fix_all_dax_quoting (connector env) c2))) (\<lambda>(elapsed, c3).
     return (append_benchmark res2 ''fix_dax_medium'' elapsed))))))))"

definition benchmark_large :: "'c env \<Rightarrow> path \<Rightarrow> results \<Rightarrow> results prog" where
  "benchmark_large env temp_dir res0 =
     seq (print [Lit ([CHR ''\<newline>''] @ ''BENCHMARK 3: Large Project (200 tables, 500 visuals)'')])
    (seq (print [Lit (rule_line CHR ''-'')])
    (bind (create_performance_test_project temp_dir 200 500 15 True) (\<lambda>project_path_large.
     bind (lift (new_connector (connector env) False)) (\<lambda>c0.
     bind (benchmark_operation (clock env) ''Load project''
             (on_fs (load_project (connector env) c0 project_path_large))) (\<lambda>(elapsed, c1).
     let res1 = append_benchmark res0 ''load_large'' elapsed in
     bind (benchmark_operation (clock env) ''Validate TMDL syntax''
             (on_fs (validate_tmdl_syntax (connector env) c1))) (\<lambda>(elapsed, c2).
     let res2 = append_benchmark res1 ''validate_large'' elapsed in
     bind (benchmark_operation (clock env) ''Fix DAX quoting''
             (on_fs (fix_all_dax_quoting (connector env) c2))) (\<lambda>(elapsed, c3).
     return (append_benchmark res2 ''fix_dax_large'' elapsed))))))))"

subsection \<open>Summary analysis (source lines 297 to 329)\<close>

definition small_ops :: "sample list \<Rightarrow> sample list" where
  "small_ops bs = filter (\<lambda>b. str_in ''small'' (operation b)) bs"

definition medium_ops :: "sample list \<Rightarrow> sample list" where
  "medium_ops bs = filter (\<lambda>b. str_in ''medium'' (operation b)) bs"

definition large_ops :: "sample list \<Rightarrow> sample list" where
  "large_ops bs = filter (\<lambda>b. str_in ''large'' (operation b)) bs"

text \<open>The expression \<open>sum(b['time_ms'] for b in ops) / len(ops)\<close>.\<close>

definition avg_ms :: "sample list \<Rightarrow> error + real" where
  "avg_ms ops = py_truediv (sum_list (map time_ms ops)) (real (length ops))"

text \<open>\<open>large_avg / small_avg if small_avg > 0 else 0\<close>.\<close>

definition scaling_factor :: "real \<Rightarrow> real \<Rightarrow> real" where
  "scaling_factor small_avg large_avg = (if small_avg > 0 then large_avg / small_avg else 0)"

text \<open>The three verdict lines; they start with the UTF-8 bytes of a check mark and of a
  warning sign.\<close>

definition sub_linear_line :: "piece list" where
  "sub_linear_line =
     [Lit ([CHR 0xE2, CHR 0x9C, CHR 0x93] @ '' Sub-linear scaling! Performance is good.'')]"

definition linear_line :: "piece list" where
  "linear_line =
     [Lit ([CHR 0xE2, CHR 0x9A, CHR 0xA0]
           @ '' Linear scaling. Consider parallelization for very large projects.'')]"

definition super_linear_line :: "piece list" where
  "super_linear_line =
     [Lit ([CHR 0xE2, CHR 0x9A, CHR 0xA0]
           @ '' Super-linear scaling. Possible optimization needed.'')]"

definition verdict_line :: "real \<Rightarrow> piece list" where
  "verdict_line sf =
     (if sf < 30 then sub_linear_line
      else if sf < 100 then linear_line
      else super_linear_line)"

definition scaling_analysis :: "sample list \<Rightarrow> sample list \<Rightarrow> unit prog" where
  "scaling_analysis small large =
     (if small \<noteq> [] \<and> large \<noteq> [] then
        bind (lift (avg_ms small)) (\<lambda>small_avg.
        bind (lift (avg_ms large)) (\<lambda>large_avg.
          let sf = scaling_factor small_avg large_avg in
          seq (print [Lit ([CHR ''\<newline>''] @ ''Scaling Factor (Large vs Small): ''), Flt 1 sf, Lit ''x''])
         (seq (print [Lit ''Table growth: 10 -> 200 (20x)''])
         (seq (print [Lit ''Time growth: ~'', Flt 1 sf, Lit ''x''])
              (print (verdict_line sf))))))
      else return ())"

definition summary_analysis :: "results \<Rightarrow> results prog" where
  "summary_analysis res =
     seq (print [Lit ([CHR ''\<newline>''] @ rule_line CHR ''='')])
    (seq (print [Lit ''PERFORMANCE SUMMARY''])
    (seq (print [Lit (rule_line CHR ''='')])
    (bind (lift (avg_ms (small_ops (benchmarks res)))) (\<lambda>a.
     seq (print [Lit ([CHR ''\<newline>''] @ ''Small Project Average: ''), Flt 2 a, Lit ''ms''])
    (bind (lift (avg_ms (medium_ops (benchmarks res)))) (\<lambda>a.
     seq (print [Lit ''Medium Project Average: '', Flt 2 a, Lit ''ms''])
    (bind (lift (avg_ms (large_ops (benchmarks res)))) (\<lambda>a.
     seq (print [Lit ''Large Project Average: '', Flt 2 a, Lit ''ms''])
    (seq (scaling_analysis (small_ops (benchmarks res)) (large_ops (benchmarks res)))
    (bind (lift (avg_ms (small_ops (benchmarks res)))) (\<lambda>small_avg_ms.
     bind (lift (avg_ms (medium_ops (benchmarks res)))) (\<lambda>medium_avg_ms.
     bind (lift (avg_ms (large_ops (benchmarks res)))) (\<lambda>large_avg_ms.
     return (res\<lparr>summary := [(''small_avg_ms'', small_avg_ms),
                               (''medium_avg_ms'', medium_avg_ms),
                               (''large_avg_ms'', large_avg_ms)]\<rparr>))))))))))))))"

subsection \<open>Saving the results (source lines 331 to 335)\<close>

definition sample_json :: "sample \<Rightarrow> json" where
  "sample_json b = JObj [(''operation'', JStr (operation b)), (''time_ms'', JNum (time_ms b))]"

definition results_json :: "results \<Rightarrow> json" where
  "results_json res =
     JObj [(''benchmarks'', JArr (map sample_json (benchmarks res))),
           (''summary'', JObj (map (\<lambda>(k, v). (k, JNum v)) (summary res)))]"

definition artifact_file :: "'c env \<Rightarrow> path" where
  "artifact_file env = cwd env @ [''benchmark_results.json'']"

definition save_results :: "'c env \<Rightarrow> results \<Rightarrow> unit prog" where
  "save_results env res =
     seq (write_file (artifact_file env) (JsonDump (results_json res) (Some 2)))
         (print [Lit ([CHR ''\<newline>''] @ [CHR 0xE2, CHR 0x9C, CHR 0x93]
                      @ '' Results saved to benchmark_results.json'')])"

subsection \<open>The run (source lines 174 to 339)\<close>

text \<open>The body of the \<open>try\<close> statement.\<close>

definition run_body :: "'c env \<Rightarrow> path \<Rightarrow> unit prog" where
  "run_body env temp_dir =
     bind (benchmark_small env temp_dir \<lparr>benchmarks = [], summary = []\<rparr>) (\<lambda>res1.
     bind (benchmark_medium env temp_dir res1) (\<lambda>res2.
     bind (benchmark_large env temp_dir res2) (\<lambda>res3.
     bind (summary_analysis res3) (\<lambda>res4.
     save_results env res4))))"

text \<open>The banner printed before anything else (source lines 177 to 179).\<close>

definition print_header :: "unit prog" where
  "print_header =
     seq (print [Lit ([CHR ''\<newline>''] @ rule_line CHR ''='')])
    (seq (print [Lit ''POWER BI PBIP CONNECTOR - PERFORMANCE BENCHMARKS''])
         (print [Lit (rule_line CHR ''='')]))"

definition run_benchmarks :: "'c env \<Rightarrow> unit prog" where
  "run_benchmarks env =
     seq print_header
    (bind (mkdtemp env ''pbip_perf_test_'') (\<lambda>temp_dir.
       try_finally (run_body env temp_dir) (rmtree temp_dir True)))"

section \<open>Observations used to state the properties\<close>

text \<open>
  A directory is fresh when it exists, nothing exists under it, and no regular file sits at
  one of its ancestors: the state of the scratch root right after \<open>tempfile.mkdtemp\<close>.
\<close>

definition fresh_dir :: "filesystem \<Rightarrow> path \<Rightarrow> bool" where
  "fresh_dir fsys d =
     (is_dir fsys d \<and> (\<forall>p \<in> set (dirs fsys). \<not> strict_prefix d p)
      \<and> (\<forall>p \<in> fst ` set (files fsys). \<not> prefix d p \<and> \<not> prefix p d))"




text \<open>A small host state used to run the definitions on concrete inputs: the directories
  \<open>/tmp\<close> and \<open>/work\<close> exist and nothing else does.\<close>

definition example_world :: world where
  "example_world =
     \<lparr>fs = \<lparr>dirs = [[''tmp''], [''work'']], files = [], undeletable = []\<rparr>,
      ticks = 0, stdout = [], rmtree_calls = []\<rparr>"

section \<open>Definitions used in the proofs\<close>

definition is_digit :: "char \<Rightarrow> bool" where
  "is_digit c = (c \<in> set ''0123456789'')"

definition dec_val :: "string \<Rightarrow> nat" where
  "dec_val s = foldl (\<lambda>a c. 10 * a + (of_char c - 48)) 0 s"

definition apply_effect :: "path list \<Rightarrow> (path \<times> content) list \<Rightarrow> world \<Rightarrow> world" where
  "apply_effect ds ws w =
     w\<lparr>fs := (fs w)\<lparr>dirs := fold List.insert ds (dirs (fs w)),
                     files := fold (\<lambda>(p, c). AList.update p c) ws (files (fs w))\<rparr>\<rparr>"

definition effect :: "'a prog \<Rightarrow> path list \<Rightarrow> (path \<times> content) list \<Rightarrow> bool" where
  "effect m ds ws = (\<forall>w r w'. m w = (Inr r, w') \<longrightarrow> w' = apply_effect ds ws w)"

definition report_dirs :: "path \<Rightarrow> int \<Rightarrow> bool \<Rightarrow> path list" where
  "report_dirs t num_visuals enh =
     (if enh then ancestors_and_self (pages_dir t)
                  @ concat (map (\<lambda>v. ancestors_and_self (visual_dir t v)) (py_range num_visuals))
      else [])"

definition report_writes :: "path \<Rightarrow> int \<Rightarrow> int \<Rightarrow> bool \<Rightarrow> (path \<times> content) list" where
  "report_writes t num_tables num_visuals enh =
     (if enh then
        [(definition_dir t @ [''report.json''], Text (version_text ''2.0'')),
         (pages_dir t @ [''pages.json''], JsonDump pages_json None)]
        @ map (\<lambda>v. (visual_file t v, JsonDump (visual_content (v mod num_tables)) (Some 2)))
            (py_range num_visuals)
      else [(report_dir t @ [''report.json''], JsonDump report_json None)])"

definition gen_dirs :: "path \<Rightarrow> int \<Rightarrow> bool \<Rightarrow> path list" where
  "gen_dirs t num_visuals enh =
     ancestors_and_self (tables_dir t) @ ancestors_and_self (relationships_dir t)
     @ ancestors_and_self (report_dir t) @ report_dirs t num_visuals enh"

definition gen_writes :: "path \<Rightarrow> int \<Rightarrow> int \<Rightarrow> int \<Rightarrow> bool \<Rightarrow> (path \<times> content) list" where
  "gen_writes t num_tables num_visuals kb enh =
     [(pbip_file t, Text (version_text ''1.0''))]
     @ map (\<lambda>i. (table_file t i, Text (table_content kb i))) (py_range num_tables)
     @ map (\<lambda>i. (rel_file t i, Text (rel_content i))) (py_range (num_tables - 1))
     @ report_writes t num_tables num_visuals enh"

definition gen_dir_path :: "path \<Rightarrow> path \<Rightarrow> bool" where
  "gen_dir_path t p =
     (prefix p (tables_dir t) \<or> prefix p (relationships_dir t) \<or> (\<exists>v. prefix p (visual_dir t v)))"

definition gen_file_path :: "path \<Rightarrow> path \<Rightarrow> bool" where
  "gen_file_path t p =
     (p = pbip_file t \<or> (\<exists>i. p = table_file t i) \<or> (\<exists>i. p = rel_file t i)
      \<or> p = definition_dir t @ [''report.json''] \<or> p = pages_dir t @ [''pages.json'']
      \<or> (\<exists>v. p = visual_file t v) \<or> p = report_dir t @ [''report.json''])"

definition gen_compat :: "path \<Rightarrow> filesystem \<Rightarrow> bool" where
  "gen_compat t fsys =
     (is_dir fsys t \<and> (\<forall>k \<in> fst ` set (files fsys). \<not> gen_dir_path t k)
      \<and> (\<forall>d \<in> set (dirs fsys). \<not> gen_file_path t d))"

text \<open>Total correctness of a statement under an invariant.\<close>

definition ok :: "(world \<Rightarrow> bool) \<Rightarrow> 'a prog \<Rightarrow> (world \<Rightarrow> bool) \<Rightarrow> bool" where
  "ok I m J = (\<forall>w. I w \<longrightarrow> (\<exists>r w'. m w = (Inr r, w') \<and> J w'))"

definition gen_inv :: "path \<Rightarrow> path list \<Rightarrow> world \<Rightarrow> bool" where
  "gen_inv t ds w = (gen_compat t (fs w) \<and> (\<forall>d \<in> set ds. is_dir (fs w) d))"

definition base_dirs :: "path \<Rightarrow> path list" where
  "base_dirs t = [project_dir t, tables_dir t, relationships_dir t, report_dir t]"

definition enh_dirs :: "path \<Rightarrow> path list" where
  "enh_dirs t = [definition_dir t, pages_dir t]"








text \<open>Partial correctness: what holds of the value and the world when a statement returns.\<close>

definition post :: "'a prog \<Rightarrow> ('a \<Rightarrow> world \<Rightarrow> bool) \<Rightarrow> bool" where
  "post m Q = (\<forall>w r w'. m w = (Inr r, w') \<longrightarrow> Q r w')"

definition small_labels :: "string list" where
  "small_labels = [''load_small'', ''validate_small'', ''fix_dax_small'', ''rename_table_small'']"

definition medium_labels :: "string list" where
  "medium_labels = [''load_medium'', ''validate_medium'', ''fix_dax_medium'']"

definition large_labels :: "string list" where
  "large_labels = [''load_large'', ''validate_large'', ''fix_dax_large'']"

definition extends :: "results \<Rightarrow> string list \<Rightarrow> results \<Rightarrow> bool" where
  "extends res0 labels r =
     (\<exists>new. benchmarks r = benchmarks res0 @ new \<and> map operation new = labels
            \<and> summary r = summary res0)"

text \<open>The arithmetic mean of the elapsed times of a non-empty list of samples.\<close>

definition mean_ms :: "sample list \<Rightarrow> real" where
  "mean_ms ops = sum_list (map time_ms ops) / real (length ops)"

definition all_labels :: "string list" where
  "all_labels =
     [''load_small'', ''validate_small'', ''fix_dax_small'', ''rename_table_small'',
      ''load_medium'', ''validate_medium'', ''fix_dax_medium'',
      ''load_large'', ''validate_large'', ''fix_dax_large'']"

definition tier_summary :: "sample list \<Rightarrow> (string \<times> real) list" where
  "tier_summary bs =
     [(''small_avg_ms'', mean_ms (small_ops bs)),
      (''medium_avg_ms'', mean_ms (medium_ops bs)),
      (''large_avg_ms'', mean_ms (large_ops bs))]"

text \<open>A statement that never calls \<open>shutil.rmtree\<close>.\<close>

definition keeps_log :: "'a prog \<Rightarrow> bool" where
  "keeps_log m = (\<forall>w. rmtree_calls (snd (m w)) = rmtree_calls w)"

text \<open>A connector whose operations succeed and leave the project files alone, and a host
  with this connector, a clock that advances by one second at each reading, the temporary
  directory \<open>/tmp\<close> and the working directory \<open>/work\<close>.\<close>

definition null_connector :: "unit connector_api" where
  "null_connector =
     \<lparr>new_connector = (\<lambda>auto_backup. Inr ()),
      load_project = (\<lambda>c p fsys. (Inr c, fsys)),
      validate_tmdl_syntax = (\<lambda>c fsys. (Inr c, fsys)),
      fix_all_dax_quoting = (\<lambda>c fsys. (Inr c, fsys)),
      rename_table_in_files = (\<lambda>c old new fsys. (Inr c, fsys))\<rparr>"

definition example_env :: "unit env" where
  "example_env =
     \<lparr>clock = (\<lambda>k. real k), connector = null_connector,
      tempdir = [''tmp''], temp_names = [''0''], cwd = [''work'']\<rparr>"

text \<open>The same host with a connector that cannot be constructed.\<close>

definition failing_env :: "unit env" where
  "failing_env =
     example_env\<lparr>connector :=
       null_connector\<lparr>new_connector := (\<lambda>auto_backup. Inl (ConnectorOperationError ''unavailable''))\<rparr>\<rparr>"

text \<open>The invariant of a run with a connector that leaves the files alone.\<close>

definition run_inv :: "path \<Rightarrow> path \<Rightarrow> world \<Rightarrow> bool" where
  "run_inv t art w =
     (gen_compat t (fs w) \<and> is_dir (fs w) (butlast art) \<and> \<not> is_dir (fs w) art)"

section \<open>Basic facts\<close>

lemmas prog_defs = bind_def seq_def return_def raise_def lift_def print_def

lemma str_in_iff: "str_in sub s \<longleftrightarrow> (\<exists>pre post. s = pre @ sub @ post)"
proof (induction s)
  case Nil
  then show ?case by auto
next
  case (Cons c cs)
  show ?case
  proof
    assume "str_in sub (c # cs)"
    then consider "prefix sub (c # cs)" | "str_in sub cs" by auto
    then show "\<exists>pre post. c # cs = pre @ sub @ post"
    proof cases
      case 1
      then obtain post where "c # cs = sub @ post" by (auto simp: prefix_def)
      then have "c # cs = [] @ sub @ post" by simp
      then show ?thesis by blast
    next
      case 2
      with Cons obtain pre post where "cs = pre @ sub @ post" by auto
      then have "c # cs = (c # pre) @ sub @ post" by simp
      then show ?thesis by blast
    qed
  next
    assume "\<exists>pre post. c # cs = pre @ sub @ post"
    then obtain pre post where e: "c # cs = pre @ sub @ post" by blast
    show "str_in sub (c # cs)"
    proof (cases pre)
      case Nil
      with e have "prefix sub (c # cs)" by (simp add: prefix_def)
      then show ?thesis by simp
    next
      case (Cons a pre')
      with e have "cs = pre' @ sub @ post" by simp
      with Cons.IH have "str_in sub cs" by blast
      then show ?thesis by simp
    qed
  qed
qed


lemma avg_ms_cases:
  "avg_ms ops =
     (if ops = [] then Inl ZeroDivisionError
      else Inr (sum_list (map time_ms ops) / real (length ops)))"
  by (simp add: avg_ms_def py_truediv_def)

section \<open>Grouping of the samples by tier\<close>

text \<open>
  Claim C2, as amended. Each of the three tier lists is an independent filter of the sample
  sequence: a sample belongs to the list of a tier exactly when the tier's name occurs in its
  label as a contiguous, case-sensitive substring. So a label that contains the names of
  several tiers is put into the list of every one of them, and a label that contains none
  is in no list.
\<close>

theorem tier_lists_by_substring:
  "set (small_ops bs) = {b \<in> set bs. \<exists>pre post. operation b = pre @ ''small'' @ post}
   \<and> set (medium_ops bs) = {b \<in> set bs. \<exists>pre post. operation b = pre @ ''medium'' @ post}
   \<and> set (large_ops bs) = {b \<in> set bs. \<exists>pre post. operation b = pre @ ''large'' @ post}"
  unfolding small_ops_def medium_ops_def large_ops_def
  by (simp only: set_filter str_in_iff)

text \<open>
  Claim C2 as stated fails: the sample labelled \<open>load_small_large\<close> is not assigned to one
  tier only, it is in the list of the small tier and in the list of the large tier.
\<close>

theorem ambiguous_label_in_two_tiers:
  "\<lparr>operation = ''load_small_large'', time_ms = 1\<rparr>
      \<in> set (small_ops [\<lparr>operation = ''load_small_large'', time_ms = 1\<rparr>])
   \<and> \<lparr>operation = ''load_small_large'', time_ms = 1\<rparr>
      \<in> set (large_ops [\<lparr>operation = ''load_small_large'', time_ms = 1\<rparr>])"
  by (simp add: small_ops_def large_ops_def)

section \<open>Scaling factor and verdict\<close>

lemma verdict_lines_distinct:
  "sub_linear_line \<noteq> linear_line \<and> linear_line \<noteq> super_linear_line
   \<and> sub_linear_line \<noteq> super_linear_line"
  by (simp add: sub_linear_line_def linear_line_def super_linear_line_def)



section \<open>Averaging over an empty tier\<close>

text \<open>
  Claim C7. The summary analysis raises \<open>ZeroDivisionError\<close> exactly when one of the three
  tier lists is empty, and returns a summary exactly when all three are non-empty; in both
  cases it leaves the filesystem as it was, so a failed analysis writes no artifact.
\<close>

theorem summary_fails_iff_empty_tier:
  "(fst (summary_analysis res w) = Inl ZeroDivisionError) =
     (small_ops (benchmarks res) = [] \<or> medium_ops (benchmarks res) = []
      \<or> large_ops (benchmarks res) = [])
   \<and> (\<exists>res'. fst (summary_analysis res w) = Inr res') =
     (small_ops (benchmarks res) \<noteq> [] \<and> medium_ops (benchmarks res) \<noteq> []
      \<and> large_ops (benchmarks res) \<noteq> [])
   \<and> fs (snd (summary_analysis res w)) = fs w"
  by (auto simp add: summary_analysis_def scaling_analysis_def avg_ms_cases prog_defs Let_def)

section \<open>Formatted integers determine their value\<close>

lemma digit_cases:
  "d < 10 \<Longrightarrow> d = 0 \<or> d = 1 \<or> d = 2 \<or> d = 3 \<or> d = 4 \<or> d = 5 \<or> d = 6 \<or> d = 7 \<or> d = 8 \<or> d = (9::nat)"
  by arith

lemma digit_char_is_digit: "d < 10 \<Longrightarrow> is_digit (digit_char d)"
  apply (drule digit_cases)
  apply (elim disjE)
  apply (simp_all add: is_digit_def digit_char_def)
  done

lemma of_char_digit: "d < 10 \<Longrightarrow> of_char (digit_char d) = (48 + d :: nat)"
  apply (drule digit_cases)
  apply (elim disjE)
  apply (simp_all add: digit_char_def)
  done

lemma dec_val_snoc: "dec_val (s @ [c]) = 10 * dec_val s + (of_char c - 48)"
  by (simp add: dec_val_def)

lemma dec_val_digits: "dec_val (digits n) = n"
proof (induction n rule: digits.induct)
  case (1 n)
  show ?case
  proof (cases "n < 10")
    case True
    then show ?thesis
      by (subst digits.simps) (simp add: dec_val_def of_char_digit)
  next
    case False
    then have "dec_val (digits (n div 10)) = n div 10" using 1 by simp
    then show ?thesis using False
      by (subst digits.simps) (simp add: dec_val_snoc of_char_digit)
  qed
qed


lemma dec_val_zeros: "dec_val (replicate k CHR ''0'' @ s) = dec_val s"
proof -
  have "foldl (\<lambda>a c. 10 * a + (of_char c - 48)) (0::nat) (replicate k CHR ''0'') = 0"
    by (induction k) simp_all
  then show ?thesis by (simp add: dec_val_def)
qed

lemma zfill_digits_inj:
  assumes "zfill w (digits m) = zfill w (digits n)" shows "m = n"
proof -
  have "dec_val (zfill w (digits m)) = dec_val (zfill w (digits n))"
    using assms by (rule arg_cong)
  then show ?thesis by (simp only: zfill_def dec_val_zeros dec_val_digits)
qed

lemma digits_all_digit: "c \<in> set (digits n) \<Longrightarrow> is_digit c"
proof (induction n arbitrary: c rule: digits.induct)
  case (1 n)
  show ?case
  proof (cases "n < 10")
    case True
    with 1(2) show ?thesis
      by (subst (asm) digits.simps) (simp add: digit_char_is_digit)
  next
    case False
    with 1 show ?thesis
      by (subst (asm) (2) digits.simps) (auto simp add: digit_char_is_digit)
  qed
qed

lemma digits_nonempty: "digits n \<noteq> []"
  by (subst digits.simps) simp

lemma is_digit_zero: "is_digit CHR ''0''"
  by (simp add: is_digit_def)

lemma zfill_all_digit: "c \<in> set (zfill w (digits n)) \<Longrightarrow> is_digit c"
  by (auto simp: zfill_def is_digit_zero dest: digits_all_digit)

lemma minus_not_digit: "\<not> is_digit CHR ''-''"
  by (simp add: is_digit_def)

lemma fmt_0d_sign: "a < 0 \<Longrightarrow> \<not> b < 0 \<Longrightarrow> fmt_0d w a \<noteq> fmt_0d w b"
proof
  assume "a < 0" "\<not> b < 0" "fmt_0d w a = fmt_0d w b"
  then have "CHR ''-'' # zfill (w - 1) (digits (nat (- a))) = zfill w (digits (nat b))"
    by (simp add: fmt_0d_def)
  then have "CHR ''-'' \<in> set (zfill w (digits (nat b)))"
    by (metis list.set_intros(1))
  then show False using zfill_all_digit minus_not_digit by blast
qed

lemma fmt_0d_inj:
  assumes e: "fmt_0d w x = fmt_0d w y" shows "x = y"
proof (cases "x < 0")
  case True
  then have y: "y < 0" using fmt_0d_sign [of x y w] e by blast
  with True e have "zfill (w - 1) (digits (nat (- x))) = zfill (w - 1) (digits (nat (- y)))"
    by (simp add: fmt_0d_def)
  then have "nat (- x) = nat (- y)" by (rule zfill_digits_inj)
  with True y show ?thesis by simp
next
  case False
  then have y: "\<not> y < 0" using fmt_0d_sign [of y x w] e by auto
  with False e have "zfill w (digits (nat x)) = zfill w (digits (nat y))"
    by (simp add: fmt_0d_def)
  then have "nat x = nat y" by (rule zfill_digits_inj)
  with False y show ?thesis by simp
qed




lemma str_int_chars: "c \<in> set (str_int x) \<Longrightarrow> is_digit c \<or> c = CHR ''-''"
  by (auto simp: str_int_def split: if_splits dest: digits_all_digit)






lemma page_id_eq_iff: "page_id i = page_id j \<longleftrightarrow> i div 5 = j div 5"
  by (auto simp: page_id_def dest: fmt_0d_inj)

section \<open>The directories and files a statement leaves\<close>

lemma apply_effect_nil [simp]: "apply_effect [] [] w = w"
  by (simp add: apply_effect_def)

lemma apply_effect_append:
  "apply_effect ds2 ws2 (apply_effect ds1 ws1 w) = apply_effect (ds1 @ ds2) (ws1 @ ws2) w"
  by (simp add: apply_effect_def)

lemma effect_return: "effect (return x) [] []"
  by (simp add: effect_def return_def)

lemma effect_makedirs: "effect (makedirs p) (ancestors_and_self p) []"
  by (auto simp: effect_def makedirs_def apply_effect_def split: list.splits)

lemma effect_write_file: "effect (write_file p c) [] [(p, c)]"
  by (auto simp: effect_def write_file_def apply_effect_def split: if_splits)

lemma effect_bind:
  assumes "effect m ds1 ws1" and "\<And>x. effect (f x) ds2 ws2"
  shows "effect (bind m f) (ds1 @ ds2) (ws1 @ ws2)"
  unfolding effect_def
proof (intro allI impI)
  fix w r w'
  assume b: "bind m f w = (Inr r, w')"
  obtain r1 w1 where m: "m w = (r1, w1)" by (cases "m w")
  show "w' = apply_effect (ds1 @ ds2) (ws1 @ ws2) w"
  proof (cases r1)
    case (Inl e)
    with b m show ?thesis by (simp add: bind_def)
  next
    case (Inr x)
    with b m have "f x w1 = (Inr r, w')" by (simp add: bind_def)
    moreover from Inr m assms(1) have "w1 = apply_effect ds1 ws1 w" by (simp add: effect_def)
    ultimately have "w' = apply_effect ds2 ws2 (apply_effect ds1 ws1 w)"
      using assms(2) [of x] unfolding effect_def by blast
    then show ?thesis by (simp only: apply_effect_append)
  qed
qed

lemma effect_seq:
  "effect m ds1 ws1 \<Longrightarrow> effect k ds2 ws2 \<Longrightarrow> effect (seq m k) (ds1 @ ds2) (ws1 @ ws2)"
  unfolding seq_def by (rule effect_bind)

lemma effect_foreach:
  assumes "\<And>x. effect (body x) (df x) (wr x)"
  shows "effect (foreach xs body) (concat (map df xs)) (concat (map wr xs))"
proof (induction xs)
  case Nil
  show ?case by (simp add: effect_return)
next
  case (Cons x xs)
  show ?case using effect_seq [OF assms [of x] Cons] by simp
qed

lemma effect_write_visual:
  "effect (write_visual t n v) (ancestors_and_self (visual_dir t v))
     [(visual_file t v, JsonDump (visual_content (v mod n)) (Some 2))]"
proof (cases "n = 0")
  case True
  then show ?thesis
    by (auto simp: effect_def write_visual_def seq_def bind_def lift_def py_mod_def raise_def
        split: prod.splits sum.splits)
next
  case False
  have "effect (bind (lift (py_mod v n)) (\<lambda>m.
          write_file (visual_file t v) (JsonDump (visual_content m) (Some 2)))) []
          [(visual_file t v, JsonDump (visual_content (v mod n)) (Some 2))]"
    using False effect_write_file [of "visual_file t v" "JsonDump (visual_content (v mod n)) (Some 2)"]
    by (simp add: effect_def bind_def lift_def py_mod_def return_def)
  from effect_seq [OF effect_makedirs this] show ?thesis
    by (simp add: write_visual_def)
qed

lemma concat_map_single: "concat (map (\<lambda>x. [f x]) xs) = map f xs"
  by (induction xs) simp_all

lemma concat_map_nil: "concat (map (\<lambda>x. []) xs) = []"
  by (induction xs) simp_all

lemma effect_write_report:
  "effect (write_report t n v enh) (report_dirs t v enh) (report_writes t n v enh)"
proof (cases enh)
  case True
  have fe: "effect (foreach (py_range v) (write_visual t n))
              (concat (map (\<lambda>v. ancestors_and_self (visual_dir t v)) (py_range v)))
              (map (\<lambda>v. (visual_file t v, JsonDump (visual_content (v mod n)) (Some 2))) (py_range v))"
    using effect_foreach [of "write_visual t n" "\<lambda>v. ancestors_and_self (visual_dir t v)"
        "\<lambda>v. [(visual_file t v, JsonDump (visual_content (v mod n)) (Some 2))]" "py_range v",
        OF effect_write_visual]
    by (simp add: concat_map_single)
  from effect_seq [OF effect_makedirs effect_seq [OF effect_write_file
        effect_seq [OF effect_write_file fe]]]
  show ?thesis using True
    by (simp add: write_report_def report_dirs_def report_writes_def)
next
  case False
  then show ?thesis
    using effect_write_file by (simp add: write_report_def report_dirs_def report_writes_def)
qed

lemma effect_tables:
  "effect (foreach (py_range n) (write_table t kb)) []
     (map (\<lambda>i. (table_file t i, Text (table_content kb i))) (py_range n))"
  using effect_foreach [of "write_table t kb" "\<lambda>i. []"
      "\<lambda>i. [(table_file t i, Text (table_content kb i))]" "py_range n"]
    effect_write_file
  by (simp add: concat_map_single concat_map_nil write_table_def)

lemma effect_relationships:
  "effect (foreach (py_range n) (write_relationship t)) []
     (map (\<lambda>i. (rel_file t i, Text (rel_content i))) (py_range n))"
  using effect_foreach [of "write_relationship t" "\<lambda>i. []"
      "\<lambda>i. [(rel_file t i, Text (rel_content i))]" "py_range n"]
    effect_write_file
  by (simp add: concat_map_single concat_map_nil write_relationship_def)

lemma effect_generator:
  "effect (create_performance_test_project t n v kb enh) (gen_dirs t v enh) (gen_writes t n v kb enh)"
proof -
  note e = effect_seq [OF effect_makedirs effect_seq [OF effect_makedirs
        effect_seq [OF effect_makedirs effect_seq [OF effect_write_file
        effect_seq [OF effect_tables effect_seq [OF effect_relationships
        effect_seq [OF effect_write_report effect_return]]]]]]]
  show ?thesis
    unfolding create_performance_test_project_def gen_dirs_def gen_writes_def
    using e [of "tables_dir t" "relationships_dir t" "report_dir t" "pbip_file t"
        "Text (version_text ''1.0'')" n t kb "n - 1" t t n v enh "project_dir t"]
    by simp
qed

section \<open>The paths of a generated project\<close>

lemmas path_defs = project_dir_def pbip_file_def semantic_dir_def tables_dir_def
  relationships_dir_def report_dir_def definition_dir_def pages_dir_def visual_dir_def
  visual_file_def table_file_def rel_file_def project_name_def page_id_def visual_id_def
  table_name_def

lemma gen_paths_disjoint: "gen_dir_path t p \<Longrightarrow> gen_file_path t p \<Longrightarrow> False"
  unfolding gen_dir_path_def gen_file_path_def
  by (auto simp: path_defs)

lemma gen_dir_path_prefix: "gen_dir_path t p \<Longrightarrow> prefix q p \<Longrightarrow> gen_dir_path t q"
  unfolding gen_dir_path_def by (meson prefix_order.order_trans)

lemma ancestors_prefix: "a \<in> set (ancestors_and_self p) \<Longrightarrow> prefix a p"
  by (auto simp: ancestors_and_self_def take_is_prefix)

lemma self_in_ancestors: "p \<noteq> [] \<Longrightarrow> p \<in> set (ancestors_and_self p)"
proof -
  assume "p \<noteq> []"
  then have "length p \<in> set [1..<Suc (length p)]" by (cases p) auto
  then have "take (length p) p \<in> set (ancestors_and_self p)"
    unfolding ancestors_and_self_def by (metis imageI set_map)
  then show ?thesis by simp
qed

lemma set_fold_insert: "set (fold List.insert xs ys) = set xs \<union> set ys"
  by (induction xs arbitrary: ys) auto

section \<open>Statements that return\<close>

lemma makedirs_ok:
  assumes c: "gen_compat t (fs w)" and d: "gen_dir_path t d"
  shows "makedirs d w = (Inr (), apply_effect (ancestors_and_self d) [] w)"
    and "gen_compat t (fs (apply_effect (ancestors_and_self d) [] w))"
proof -
  have nf: "\<not> is_file (fs w) a" if "a \<in> set (ancestors_and_self d)" for a
  proof -
    from that have "prefix a d" by (rule ancestors_prefix)
    with d have "gen_dir_path t a" by (rule gen_dir_path_prefix)
    with c show ?thesis by (auto simp: gen_compat_def is_file_def)
  qed
  then have "filter (is_file (fs w)) (ancestors_and_self d) = []"
    by (simp add: filter_empty_conv)
  then show "makedirs d w = (Inr (), apply_effect (ancestors_and_self d) [] w)"
    by (simp add: makedirs_def apply_effect_def)
  have "\<not> gen_file_path t a" if "a \<in> set (ancestors_and_self d)" for a
  proof -
    from that have "prefix a d" by (rule ancestors_prefix)
    with d have "gen_dir_path t a" by (rule gen_dir_path_prefix)
    then show ?thesis using gen_paths_disjoint by blast
  qed
  with c show "gen_compat t (fs (apply_effect (ancestors_and_self d) [] w))"
    by (auto simp: gen_compat_def apply_effect_def is_dir_def set_fold_insert)
qed

lemma write_file_ok:
  assumes c: "gen_compat t (fs w)" and f: "gen_file_path t p"
    and par: "is_dir (fs w) (butlast p)" and ne: "p \<noteq> []"
  shows "write_file p x w = (Inr (), apply_effect [] [(p, x)] w)"
    and "gen_compat t (fs (apply_effect [] [(p, x)] w))"
proof -
  from c f have "\<not> is_dir (fs w) p" by (auto simp: gen_compat_def is_dir_def)
  with par ne show "write_file p x w = (Inr (), apply_effect [] [(p, x)] w)"
    by (simp add: write_file_def apply_effect_def)
  from f have "\<not> gen_dir_path t p" using gen_paths_disjoint by blast
  with c show "gen_compat t (fs (apply_effect [] [(p, x)] w))"
    by (auto simp: gen_compat_def apply_effect_def is_dir_def dom_update)
qed

lemma dirs_apply_effect: "set (dirs (fs (apply_effect ds ws w))) = set ds \<union> set (dirs (fs w))"
  by (simp add: apply_effect_def set_fold_insert)

lemma is_dir_apply_effect: "is_dir (fs w) p \<Longrightarrow> is_dir (fs (apply_effect ds ws w)) p"
  by (simp add: is_dir_def dirs_apply_effect)

lemma is_dir_after_makedirs: "p \<noteq> [] \<Longrightarrow> is_dir (fs (apply_effect (ancestors_and_self p) ws w)) p"
  by (simp add: is_dir_def dirs_apply_effect self_in_ancestors)

lemma ok_seq: "ok I m J \<Longrightarrow> ok J k K \<Longrightarrow> ok I (seq m k) K"
  unfolding ok_def seq_def bind_def by fastforce

lemma ok_bind: "ok I m J \<Longrightarrow> (\<And>x. ok J (f x) K) \<Longrightarrow> ok I (bind m f) K"
  unfolding ok_def bind_def by fastforce

lemma ok_return: "ok I (return x) I"
  by (simp add: ok_def return_def)

lemma ok_foreach: "(\<And>x. x \<in> set xs \<Longrightarrow> ok I (body x) I) \<Longrightarrow> ok I (foreach xs body) I"
proof (induction xs)
  case Nil
  show ?case by (simp add: ok_return)
next
  case (Cons x xs)
  then show ?case using ok_seq [of I "body x" I "foreach xs body" I] by simp
qed

lemma ok_weaken: "ok I m J \<Longrightarrow> (\<And>w. I' w \<Longrightarrow> I w) \<Longrightarrow> (\<And>w. J w \<Longrightarrow> J' w) \<Longrightarrow> ok I' m J'"
  unfolding ok_def by blast

lemma prefix_in_ancestors: "q \<noteq> [] \<Longrightarrow> prefix q p \<Longrightarrow> q \<in> set (ancestors_and_self p)"
proof -
  assume ne: "q \<noteq> []" and pr: "prefix q p"
  then have l: "length q \<in> set [1..<Suc (length p)]"
    by (cases q) (auto dest: prefix_length_le)
  from pr have "take (length q) p = q" by (auto simp: prefix_def)
  with l show ?thesis unfolding ancestors_and_self_def by (metis imageI set_map)
qed

lemma ok_makedirs:
  assumes "gen_dir_path t d" and "\<And>q. q \<in> set ds' \<Longrightarrow> q \<in> set ds \<or> (q \<noteq> [] \<and> prefix q d)"
  shows "ok (gen_inv t ds) (makedirs d) (gen_inv t ds')"
  unfolding ok_def gen_inv_def
proof (intro allI impI)
  fix w :: world
  assume a: "gen_compat t (fs w) \<and> (\<forall>d\<in>set ds. is_dir (fs w) d)"
  let ?w = "apply_effect (ancestors_and_self d) [] w"
  from a have c: "gen_compat t (fs w)" by simp
  have 1: "makedirs d w = (Inr (), ?w)" and 2: "gen_compat t (fs ?w)"
    using makedirs_ok [OF c assms(1)] by simp_all
  have "is_dir (fs ?w) q" if "q \<in> set ds'" for q
    using assms(2) [OF that] a
    by (auto simp: is_dir_def dirs_apply_effect prefix_in_ancestors)
  with 1 2 show "\<exists>r w'. makedirs d w = (Inr r, w') \<and> gen_compat t (fs w') \<and> (\<forall>d\<in>set ds'. is_dir (fs w') d)"
    by blast
qed

lemma ok_write_file:
  assumes "gen_file_path t p" and "butlast p \<in> set ds" and "p \<noteq> []"
  shows "ok (gen_inv t ds) (write_file p x) (gen_inv t ds)"
  unfolding ok_def gen_inv_def
proof (intro allI impI)
  fix w :: world
  assume a: "gen_compat t (fs w) \<and> (\<forall>d\<in>set ds. is_dir (fs w) d)"
  let ?w = "apply_effect [] [(p, x)] w"
  from a have c: "gen_compat t (fs w)" by simp
  from a assms(2) have par: "is_dir (fs w) (butlast p)" by simp
  have 1: "write_file p x w = (Inr (), ?w)" and 2: "gen_compat t (fs ?w)"
    using write_file_ok [OF c assms(1) par assms(3)] by simp_all
  from a have "\<forall>d\<in>set ds. is_dir (fs ?w) d" by (simp add: is_dir_apply_effect)
  with 1 2 show "\<exists>r w'. write_file p x w = (Inr r, w') \<and> gen_compat t (fs w') \<and> (\<forall>d\<in>set ds. is_dir (fs w') d)"
    by blast
qed

lemma gen_file_pathI:
  "gen_file_path t (pbip_file t)" "gen_file_path t (table_file t i)" "gen_file_path t (rel_file t i)"
  "gen_file_path t (definition_dir t @ [''report.json''])"
  "gen_file_path t (pages_dir t @ [''pages.json''])"
  "gen_file_path t (visual_file t v)" "gen_file_path t (report_dir t @ [''report.json''])"
  unfolding gen_file_path_def by blast+

lemma gen_dir_pathI:
  "gen_dir_path t (tables_dir t)" "gen_dir_path t (relationships_dir t)"
  "gen_dir_path t (visual_dir t v)" "gen_dir_path t (report_dir t)" "gen_dir_path t (pages_dir t)"
  unfolding gen_dir_path_def
  by (auto simp: path_defs)

lemma ok_write_visual:
  assumes "n \<noteq> 0"
  shows "ok (gen_inv t ds) (write_visual t n v) (gen_inv t ds)"
proof -
  have 1: "ok (gen_inv t ds) (makedirs (visual_dir t v)) (gen_inv t (visual_dir t v # ds))"
    by (rule ok_makedirs [OF gen_dir_pathI(3)]) (auto simp: visual_dir_def)
  have 2: "ok (gen_inv t (visual_dir t v # ds))
             (write_file (visual_file t v) (JsonDump (visual_content (v mod n)) (Some 2)))
             (gen_inv t (visual_dir t v # ds))"
    by (rule ok_write_file [OF gen_file_pathI(6)]) (simp_all add: visual_file_def)
  have 3: "bind (lift (py_mod v n)) (\<lambda>m. write_file (visual_file t v) (JsonDump (visual_content m) (Some 2)))
           = write_file (visual_file t v) (JsonDump (visual_content (v mod n)) (Some 2))"
    using assms by (simp add: bind_def lift_def py_mod_def return_def)
  have "ok (gen_inv t ds) (write_visual t n v) (gen_inv t (visual_dir t v # ds))"
    unfolding write_visual_def 3 by (rule ok_seq [OF 1 2])
  then show ?thesis by (rule ok_weaken) (simp_all add: gen_inv_def)
qed

lemma ok_write_report:
  assumes "enh \<and> 0 < v \<longrightarrow> n \<noteq> 0"
  shows "ok (gen_inv t (base_dirs t)) (write_report t n v enh) (gen_inv t (base_dirs t))"
proof (cases enh)
  case False
  have "ok (gen_inv t (base_dirs t)) (write_file (report_dir t @ [''report.json'']) (JsonDump report_json None))
          (gen_inv t (base_dirs t))"
    by (rule ok_write_file [OF gen_file_pathI(7)]) (simp_all add: base_dirs_def)
  with False show ?thesis by (simp add: write_report_def)
next
  case True
  let ?D = "enh_dirs t @ base_dirs t"
  have 1: "ok (gen_inv t (base_dirs t)) (makedirs (pages_dir t)) (gen_inv t ?D)"
    by (rule ok_makedirs [OF gen_dir_pathI(5)])
      (auto simp: enh_dirs_def definition_dir_def pages_dir_def)
  have 2: "ok (gen_inv t ?D) (write_file (definition_dir t @ [''report.json'']) (Text (version_text ''2.0''))) (gen_inv t ?D)"
    by (rule ok_write_file [OF gen_file_pathI(4)]) (simp_all add: enh_dirs_def)
  have 3: "ok (gen_inv t ?D) (write_file (pages_dir t @ [''pages.json'']) (JsonDump pages_json None)) (gen_inv t ?D)"
    by (rule ok_write_file [OF gen_file_pathI(5)]) (simp_all add: enh_dirs_def)
  have 4: "ok (gen_inv t ?D) (foreach (py_range v) (write_visual t n)) (gen_inv t ?D)"
  proof (cases "0 < v")
    case True
    with assms \<open>enh\<close> have "n \<noteq> 0" by simp
    then show ?thesis by (intro ok_foreach ok_write_visual)
  next
    case False
    then have "py_range v = []" by (simp add: py_range_def)
    then show ?thesis by (simp add: ok_return)
  qed
  have "ok (gen_inv t (base_dirs t)) (write_report t n v enh) (gen_inv t ?D)"
    using True ok_seq [OF 1 ok_seq [OF 2 ok_seq [OF 3 4]]] by (simp add: write_report_def)
  then show ?thesis by (rule ok_weaken) (simp_all add: gen_inv_def)
qed

lemma ok_generator:
  assumes "enh \<and> 0 < v \<longrightarrow> n \<noteq> 0"
  shows "ok (gen_inv t []) (create_performance_test_project t n v kb enh) (gen_inv t [])"
proof -
  let ?B = "base_dirs t"
  have 1: "ok (gen_inv t []) (makedirs (tables_dir t)) (gen_inv t [project_dir t, tables_dir t])"
    by (rule ok_makedirs [OF gen_dir_pathI(1)]) (auto simp: path_defs)
  have 2: "ok (gen_inv t [project_dir t, tables_dir t]) (makedirs (relationships_dir t))
             (gen_inv t [project_dir t, tables_dir t, relationships_dir t])"
    by (rule ok_makedirs [OF gen_dir_pathI(2)]) (auto simp: path_defs)
  have 3: "ok (gen_inv t [project_dir t, tables_dir t, relationships_dir t]) (makedirs (report_dir t)) (gen_inv t ?B)"
    by (rule ok_makedirs [OF gen_dir_pathI(4)]) (auto simp: path_defs base_dirs_def)
  have 4: "ok (gen_inv t ?B) (write_file (pbip_file t) (Text (version_text ''1.0''))) (gen_inv t ?B)"
    by (rule ok_write_file [OF gen_file_pathI(1)]) (simp_all add: base_dirs_def pbip_file_def)
  have 5: "ok (gen_inv t ?B) (foreach (py_range n) (write_table t kb)) (gen_inv t ?B)"
    unfolding write_table_def
    by (intro ok_foreach ok_write_file [OF gen_file_pathI(2)]) (simp_all add: base_dirs_def table_file_def)
  have 6: "ok (gen_inv t ?B) (foreach (py_range (n - 1)) (write_relationship t)) (gen_inv t ?B)"
    unfolding write_relationship_def
    by (intro ok_foreach ok_write_file [OF gen_file_pathI(3)]) (simp_all add: base_dirs_def rel_file_def)
  have 7: "ok (gen_inv t ?B) (write_report t n v enh) (gen_inv t ?B)"
    by (rule ok_write_report [OF assms])
  have 8: "ok (gen_inv t ?B) (return (project_dir t) :: path prog) (gen_inv t ?B)"
    by (rule ok_return)
  have "ok (gen_inv t []) (create_performance_test_project t n v kb enh) (gen_inv t ?B)"
    unfolding create_performance_test_project_def
    by (rule ok_seq [OF 1 ok_seq [OF 2 ok_seq [OF 3 ok_seq [OF 4 ok_seq [OF 5 ok_seq [OF 6 ok_seq [OF 7 8]]]]]]])
  then show ?thesis by (rule ok_weaken) (simp_all add: gen_inv_def)
qed

lemma generator_returns_project_dir:
  "create_performance_test_project t n v kb enh w = (Inr pd, w') \<Longrightarrow> pd = project_dir t"
  by (auto simp: create_performance_test_project_def seq_def bind_def return_def
      split: prod.splits sum.splits)

lemma prefix_append_cases: "prefix a (t @ xs) \<Longrightarrow> prefix a t \<or> prefix t a"
  by (auto simp: prefix_append)

lemma gen_dir_path_comparable: "gen_dir_path t k \<Longrightarrow> prefix k t \<or> prefix t k"
  unfolding gen_dir_path_def
  by (auto simp: path_defs dest: prefix_append_cases)

lemma gen_file_path_below: "gen_file_path t d \<Longrightarrow> strict_prefix t d"
  unfolding gen_file_path_def
  by (auto simp: path_defs strict_prefix_def)

lemma fresh_compat:
  assumes "fresh_dir fsys t" shows "gen_compat t fsys"
  unfolding gen_compat_def
proof (intro conjI ballI)
  show "is_dir fsys t" using assms by (simp add: fresh_dir_def)
next
  fix k assume "k \<in> fst ` set (files fsys)"
  with assms have "\<not> prefix t k \<and> \<not> prefix k t" by (auto simp: fresh_dir_def)
  then show "\<not> gen_dir_path t k" using gen_dir_path_comparable by blast
next
  fix d assume "d \<in> set (dirs fsys)"
  with assms have "\<not> strict_prefix t d" by (simp add: fresh_dir_def)
  then show "\<not> gen_file_path t d" using gen_file_path_below by blast
qed

section \<open>The files after a sequence of writes\<close>






lemma length_py_range: "length (py_range n) = nat n"
  by (simp add: py_range_def)






section \<open>The tree the generator leaves\<close>

lemma generator_result:
  assumes c: "gen_compat t (fs w)" and nz: "enh \<and> 0 < v \<longrightarrow> n \<noteq> 0"
  shows "create_performance_test_project t n v kb enh w =
           (Inr (project_dir t), apply_effect (gen_dirs t v enh) (gen_writes t n v kb enh) w)"
proof -
  from c have "gen_inv t [] w" by (simp add: gen_inv_def)
  with ok_generator [OF nz, of t kb] obtain r w'
    where r: "create_performance_test_project t n v kb enh w = (Inr r, w')"
    unfolding ok_def by blast
  from r have "r = project_dir t" by (rule generator_returns_project_dir)
  moreover from r effect_generator [of t n v kb enh]
  have "w' = apply_effect (gen_dirs t v enh) (gen_writes t n v kb enh) w"
    unfolding effect_def by blast
  ultimately show ?thesis using r by simp
qed
















section \<open>Page directories\<close>

















section \<open>The text of a table file\<close>




























lemma generator_on_fresh:
  assumes "fresh_dir (fs w) t" and "enh \<and> 0 < v \<longrightarrow> n \<noteq> 0"
  shows "create_performance_test_project t n v kb enh w =
           (Inr (project_dir t), apply_effect (gen_dirs t v enh) (gen_writes t n v kb enh) w)"
  by (rule generator_result [OF fresh_compat [OF assms(1)] assms(2)])




lemma example_fresh: "fresh_dir (fs example_world) [''tmp'']"
  by (simp add: fresh_dir_def example_world_def is_dir_def)






section \<open>The samples of a run\<close>

lemma post_return: "(\<And>w. Q x w) \<Longrightarrow> post (return x) Q"
  by (simp add: post_def return_def)

lemma post_bind: "(\<And>x. post (f x) Q) \<Longrightarrow> post (bind m f) Q"
  unfolding post_def bind_def
  by (auto split: prod.splits sum.splits)

lemma post_bind_value:
  assumes "post m (\<lambda>x w. R x)" and "\<And>x. R x \<Longrightarrow> post (f x) Q"
  shows "post (bind m f) Q"
  unfolding post_def
proof (intro allI impI)
  fix w r w'
  assume b: "bind m f w = (Inr r, w')"
  obtain r1 w1 where m: "m w = (r1, w1)" by (cases "m w")
  show "Q r w'"
  proof (cases r1)
    case (Inl e)
    with b m show ?thesis by (simp add: bind_def)
  next
    case (Inr x)
    with m assms(1) have "R x" unfolding post_def by blast
    moreover from Inr b m have "f x w1 = (Inr r, w')" by (simp add: bind_def)
    ultimately show ?thesis using assms(2) [of x] unfolding post_def by blast
  qed
qed

lemma post_seq: "post k Q \<Longrightarrow> post (seq m k) Q"
  unfolding seq_def by (rule post_bind)

lemma post_case_prod: "(\<And>a b. post (f a b) Q) \<Longrightarrow> post (case_prod f x) Q"
  by (cases x) simp

lemma post_weaken: "post m Q \<Longrightarrow> (\<And>r w. Q r w \<Longrightarrow> Q' r w) \<Longrightarrow> post m Q'"
  unfolding post_def by blast

lemma extends_append4:
  "extends res0 [a, b, c, d]
     (append_benchmark (append_benchmark (append_benchmark (append_benchmark res0 a x) b y) c z) d u)"
  unfolding extends_def append_benchmark_def
  by (rule exI [of _ "[\<lparr>operation = a, time_ms = x\<rparr>, \<lparr>operation = b, time_ms = y\<rparr>,
        \<lparr>operation = c, time_ms = z\<rparr>, \<lparr>operation = d, time_ms = u\<rparr>]"]) simp

lemma extends_append3:
  "extends res0 [a, b, c]
     (append_benchmark (append_benchmark (append_benchmark res0 a x) b y) c z)"
  unfolding extends_def append_benchmark_def
  by (rule exI [of _ "[\<lparr>operation = a, time_ms = x\<rparr>, \<lparr>operation = b, time_ms = y\<rparr>,
        \<lparr>operation = c, time_ms = z\<rparr>]"]) simp

lemma post_benchmark_small:
  "post (benchmark_small env t res0) (\<lambda>r w. extends res0 small_labels r)"
  unfolding benchmark_small_def Let_def small_labels_def
  by (intro post_seq post_bind post_case_prod post_return extends_append4)

lemma post_benchmark_medium:
  "post (benchmark_medium env t res0) (\<lambda>r w. extends res0 medium_labels r)"
  unfolding benchmark_medium_def Let_def medium_labels_def
  by (intro post_seq post_bind post_case_prod post_return extends_append3)

lemma post_benchmark_large:
  "post (benchmark_large env t res0) (\<lambda>r w. extends res0 large_labels r)"
  unfolding benchmark_large_def Let_def large_labels_def
  by (intro post_seq post_bind post_case_prod post_return extends_append3)

lemma post_avg: "post (lift (avg_ms ops)) (\<lambda>x w. x = mean_ms ops)"
  by (auto simp: post_def lift_def avg_ms_cases raise_def return_def mean_ms_def split: if_splits)

lemma post_summary_analysis:
  "post (summary_analysis res)
     (\<lambda>r w. r = res\<lparr>summary := tier_summary (benchmarks res)\<rparr>)"
  unfolding summary_analysis_def
  apply (rule post_seq, rule post_seq, rule post_seq)
  apply (rule post_bind, rule post_seq)
  apply (rule post_bind, rule post_seq)
  apply (rule post_bind, rule post_seq)
  apply (rule post_seq)
  apply (rule post_bind_value [OF post_avg])
  apply (rule post_bind_value [OF post_avg])
  apply (rule post_bind_value [OF post_avg])
  apply (rule post_return)
  apply (simp add: tier_summary_def)
  done

lemma post_save_results:
  "post (save_results env res)
     (\<lambda>r w. read_file (fs w) (artifact_file env) = Some (JsonDump (results_json res) (Some 2)))"
  by (auto simp: post_def save_results_def seq_def bind_def write_file_def print_def
      read_file_def update_conv' split: if_splits prod.splits sum.splits)

lemma post_run_body:
  "post (run_body env t)
     (\<lambda>r w. \<exists>bs. map operation bs = all_labels
               \<and> read_file (fs w) (artifact_file env)
                  = Some (JsonDump (results_json \<lparr>benchmarks = bs, summary = tier_summary bs\<rparr>)
                      (Some 2)))"
  unfolding run_body_def
proof (rule post_bind_value [OF post_benchmark_small],
       rule post_bind_value [OF post_benchmark_medium],
       rule post_bind_value [OF post_benchmark_large],
       rule post_bind_value [OF post_summary_analysis])
  fix r1 r2 r3 r4 :: results
  assume 1: "extends \<lparr>benchmarks = [], summary = []\<rparr> small_labels r1"
    and 2: "extends r1 medium_labels r2" and 3: "extends r2 large_labels r3"
    and 4: "r4 = r3\<lparr>summary := tier_summary (benchmarks r3)\<rparr>"
  from 1 2 3 have l: "map operation (benchmarks r3) = all_labels"
    by (auto simp: extends_def small_labels_def medium_labels_def large_labels_def all_labels_def)
  from 4 have e: "r4 = \<lparr>benchmarks = benchmarks r3, summary = tier_summary (benchmarks r3)\<rparr>"
    by simp
  show "post (save_results env r4)
     (\<lambda>r w. \<exists>bs. map operation bs = all_labels
               \<and> read_file (fs w) (artifact_file env)
                  = Some (JsonDump (results_json \<lparr>benchmarks = bs, summary = tier_summary bs\<rparr>)
                      (Some 2)))"
    unfolding e using l
    by (intro post_weaken [OF post_save_results]) blast
qed

text \<open>
  Claim C5. When the body of a run completes, the sample sequence it saves holds exactly
  ten samples, in the order the operations ran: load, validate and fix for the small tier
  followed by the one rename sample, then load, validate and fix for the medium tier, then
  load, validate and fix for the large tier.
\<close>

theorem ten_samples_in_order:
  assumes "run_body env temp_dir w = (Inr (), w')"
  shows "\<exists>res. read_file (fs w') (artifact_file env) = Some (JsonDump (results_json res) (Some 2))
           \<and> length (benchmarks res) = 10
           \<and> map operation (benchmarks res) =
               [''load_small'', ''validate_small'', ''fix_dax_small'', ''rename_table_small'',
                ''load_medium'', ''validate_medium'', ''fix_dax_medium'',
                ''load_large'', ''validate_large'', ''fix_dax_large'']"
proof -
  from post_run_body [of env temp_dir] assms obtain bs
    where l: "map operation bs = all_labels"
      and r: "read_file (fs w') (artifact_file env)
                = Some (JsonDump (results_json \<lparr>benchmarks = bs, summary = tier_summary bs\<rparr>) (Some 2))"
    unfolding post_def by blast
  from l have "length bs = 10"
    using length_map [of operation bs] by (simp add: all_labels_def)
  with l r show ?thesis
    by (intro exI [of _ "\<lparr>benchmarks = bs, summary = tier_summary bs\<rparr>"])
      (simp add: all_labels_def)
qed

text \<open>
  Claim C6, as amended. When the body of a run completes, the artifact it wrote holds the
  full sample sequence and a summary of exactly three entries, the averages of the small,
  the medium and the large tier under the keys \<open>small_avg_ms\<close>, \<open>medium_avg_ms\<close> and
  \<open>large_avg_ms\<close>; the summary holds no scaling factor and no growth classification.
\<close>

theorem summary_is_three_averages:
  assumes "run_body env temp_dir w = (Inr (), w')"
  shows "\<exists>bs. read_file (fs w') (artifact_file env) =
           Some (JsonDump
             (JObj [(''benchmarks'', JArr (map sample_json bs)),
                    (''summary'', JObj [
                       (''small_avg_ms'', JNum (mean_ms (small_ops bs))),
                       (''medium_avg_ms'', JNum (mean_ms (medium_ops bs))),
                       (''large_avg_ms'', JNum (mean_ms (large_ops bs)))])])
             (Some 2))"
proof -
  from post_run_body [of env temp_dir] assms obtain bs
    where "read_file (fs w') (artifact_file env)
                = Some (JsonDump (results_json \<lparr>benchmarks = bs, summary = tier_summary bs\<rparr>) (Some 2))"
    unfolding post_def by blast
  then show ?thesis
    by (intro exI [of _ bs]) (simp add: results_json_def tier_summary_def)
qed

text \<open>
  Claim C6 as stated fails: for samples with the averages 10, 20 and 25 the summary record is
  the three averages only, while the scaling factor 2.5 and the verdict go to the printed
  trace and not into the record.
\<close>

theorem summary_without_scaling_factor:
  "summary_analysis
     \<lparr>benchmarks = [\<lparr>operation = ''load_small'', time_ms = 10\<rparr>,
                    \<lparr>operation = ''load_medium'', time_ms = 20\<rparr>,
                    \<lparr>operation = ''load_large'', time_ms = 25\<rparr>],
      summary = []\<rparr> example_world =
   (Inr \<lparr>benchmarks = [\<lparr>operation = ''load_small'', time_ms = 10\<rparr>,
                       \<lparr>operation = ''load_medium'', time_ms = 20\<rparr>,
                       \<lparr>operation = ''load_large'', time_ms = 25\<rparr>],
         summary = [(''small_avg_ms'', 10), (''medium_avg_ms'', 20), (''large_avg_ms'', 25)]\<rparr>,
    example_world\<lparr>stdout :=
      [[Lit ([CHR ''\<newline>''] @ rule_line CHR ''='')],
       [Lit ''PERFORMANCE SUMMARY''],
       [Lit (rule_line CHR ''='')],
       [Lit ([CHR ''\<newline>''] @ ''Small Project Average: ''), Flt 2 10, Lit ''ms''],
       [Lit ''Medium Project Average: '', Flt 2 20, Lit ''ms''],
       [Lit ''Large Project Average: '', Flt 2 25, Lit ''ms''],
       [Lit ([CHR ''\<newline>''] @ ''Scaling Factor (Large vs Small): ''), Flt 1 (5 / 2), Lit ''x''],
       [Lit ''Table growth: 10 -> 200 (20x)''],
       [Lit ''Time growth: ~'', Flt 1 (5 / 2), Lit ''x''],
       sub_linear_line]\<rparr>)"
  by (simp add: summary_analysis_def scaling_analysis_def small_ops_def medium_ops_def
      large_ops_def avg_ms_def py_truediv_def prog_defs scaling_factor_def verdict_line_def
      example_world_def Let_def)

section \<open>Removal of the scratch root\<close>

lemma keeps_return: "keeps_log (return x)"
  by (simp add: keeps_log_def return_def)

lemma keeps_lift: "keeps_log (lift r)"
  by (cases r) (simp_all add: keeps_log_def lift_def return_def raise_def)

lemma keeps_print: "keeps_log (print l)"
  by (simp add: keeps_log_def print_def)

lemma keeps_perf_counter: "keeps_log (perf_counter c)"
  by (simp add: keeps_log_def perf_counter_def)

lemma keeps_makedirs: "keeps_log (makedirs p)"
  by (simp add: keeps_log_def makedirs_def split: list.splits)

lemma keeps_write_file: "keeps_log (write_file p c)"
  by (simp add: keeps_log_def write_file_def)

lemma keeps_on_fs: "keeps_log (on_fs f)"
  by (simp add: keeps_log_def on_fs_def split: prod.splits)

lemma keeps_bind:
  assumes "keeps_log m" and "\<And>x. keeps_log (f x)"
  shows "keeps_log (bind m f)"
  unfolding keeps_log_def
proof
  fix w
  obtain r1 w1 where m: "m w = (r1, w1)" by (cases "m w")
  with assms(1) have 1: "rmtree_calls w1 = rmtree_calls w"
    unfolding keeps_log_def by (metis snd_conv)
  show "rmtree_calls (snd (bind m f w)) = rmtree_calls w"
  proof (cases r1)
    case (Inl e)
    with m 1 show ?thesis by (simp add: bind_def)
  next
    case (Inr x)
    with m have "bind m f w = f x w1" by (simp add: bind_def)
    with assms(2) [of x] 1 show ?thesis unfolding keeps_log_def by simp
  qed
qed

lemma keeps_seq: "keeps_log m \<Longrightarrow> keeps_log k \<Longrightarrow> keeps_log (seq m k)"
  unfolding seq_def by (rule keeps_bind)

lemma keeps_case_prod: "(\<And>a b. keeps_log (f a b)) \<Longrightarrow> keeps_log (case_prod f x)"
  by (cases x) simp

lemma keeps_if: "keeps_log a \<Longrightarrow> keeps_log b \<Longrightarrow> keeps_log (if c then a else b)"
  by simp

lemma keeps_foreach: "(\<And>x. keeps_log (body x)) \<Longrightarrow> keeps_log (foreach xs body)"
  by (induction xs) (simp_all add: keeps_return keeps_seq)

lemmas keeps_intros = keeps_seq keeps_bind keeps_case_prod keeps_if keeps_foreach keeps_return
  keeps_lift keeps_print keeps_perf_counter keeps_makedirs keeps_write_file keeps_on_fs

lemma keeps_generator: "keeps_log (create_performance_test_project t n v kb enh)"
  unfolding create_performance_test_project_def write_report_def write_visual_def
    write_table_def write_relationship_def
  by (intro keeps_intros)

lemma keeps_benchmark_operation: "keeps_log op \<Longrightarrow> keeps_log (benchmark_operation c name op)"
  unfolding benchmark_operation_def Let_def
  by (intro keeps_intros)

lemma keeps_benchmark_small: "keeps_log (benchmark_small env t res)"
  unfolding benchmark_small_def Let_def
  by (intro keeps_intros keeps_generator keeps_benchmark_operation)

lemma keeps_benchmark_medium: "keeps_log (benchmark_medium env t res)"
  unfolding benchmark_medium_def Let_def
  by (intro keeps_intros keeps_generator keeps_benchmark_operation)

lemma keeps_benchmark_large: "keeps_log (benchmark_large env t res)"
  unfolding benchmark_large_def Let_def
  by (intro keeps_intros keeps_generator keeps_benchmark_operation)

lemma keeps_summary_analysis: "keeps_log (summary_analysis res)"
  unfolding summary_analysis_def scaling_analysis_def Let_def
  by (intro keeps_intros)

lemma keeps_save_results: "keeps_log (save_results env res)"
  unfolding save_results_def
  by (intro keeps_intros)

lemma keeps_run_body: "keeps_log (run_body env t)"
  unfolding run_body_def
  by (intro keeps_intros keeps_benchmark_small keeps_benchmark_medium keeps_benchmark_large
      keeps_summary_analysis keeps_save_results)

lemma keeps_mkdtemp_from: "keeps_log (mkdtemp_from d pre ss)"
proof (induction ss)
  case Nil
  show ?case by (simp add: keeps_log_def raise_def)
next
  case (Cons s ss)
  then show ?case by (simp add: keeps_log_def)
qed

lemma keeps_mkdtemp: "keeps_log (mkdtemp env pre)"
  by (simp add: mkdtemp_def keeps_mkdtemp_from)

lemma keeps_print_header: "keeps_log print_header"
  unfolding print_header_def by (intro keeps_intros)

lemma print_header_returns: "fst (print_header w) = Inr ()"
  by (simp add: print_header_def seq_def bind_def print_def)

lemma rmtree_ignoring:
  "rmtree t True w =
     (Inr (), w\<lparr>fs := remove_tree t (fs w), rmtree_calls := rmtree_calls w @ [t]\<rparr>)"
  by (simp add: rmtree_def Let_def split: option.splits)

lemma rmtree_gone: "rmtree_error t fsys = None \<Longrightarrow> \<not> is_dir (remove_tree t fsys) t"
  by (simp add: rmtree_error_def split: if_splits)

lemma try_finally_rmtree:
  "try_finally m (rmtree t True) w =
     (fst (m w), (snd (m w))\<lparr>fs := remove_tree t (fs (snd (m w))),
                             rmtree_calls := rmtree_calls (snd (m w)) @ [t]\<rparr>)"
  by (simp add: try_finally_def rmtree_ignoring split: prod.splits)

text \<open>
  Claim C4. A run that obtained its scratch root \<open>temp_dir\<close> ends with the outcome of the
  body of its \<open>try\<close> statement, whether that is a normal return or the error some step
  raised; \<open>shutil.rmtree\<close> has been called exactly once in the run, on \<open>temp_dir\<close>, after the
  body, and leaves the tree the deletion could not remove. An error of the deletion does not
  change the outcome, and when the deletion meets no error the scratch root no longer
  exists. A run whose \<open>tempfile.mkdtemp\<close> fails has no scratch root and calls no deletion.
\<close>

theorem scratch_root_removed_once:
  assumes "run_benchmarks env w = (r, w')"
  shows "case mkdtemp env ''pbip_perf_test_'' (snd (print_header w)) of
           (Inl e, w1) \<Rightarrow> r = Inl e \<and> rmtree_calls w' = rmtree_calls w
         | (Inr temp_dir, w1) \<Rightarrow>
             r = fst (run_body env temp_dir w1)
             \<and> rmtree_calls w' = rmtree_calls w @ [temp_dir]
             \<and> fs w' = remove_tree temp_dir (fs (snd (run_body env temp_dir w1)))
             \<and> (rmtree_error temp_dir (fs (snd (run_body env temp_dir w1))) = None
                  \<longrightarrow> \<not> is_dir (fs w') temp_dir)"
proof -
  obtain w0 where h: "print_header w = (Inr (), w0)"
    using print_header_returns [of w] by (cases "print_header w") auto
  have l0: "rmtree_calls w0 = rmtree_calls w"
    using keeps_print_header h unfolding keeps_log_def by (metis snd_conv)
  obtain r1 w1 where m: "mkdtemp env ''pbip_perf_test_'' w0 = (r1, w1)"
    by (cases "mkdtemp env ''pbip_perf_test_'' w0")
  have l1: "rmtree_calls w1 = rmtree_calls w"
    using keeps_mkdtemp [of env "''pbip_perf_test_''"] m l0 unfolding keeps_log_def
    by (metis snd_conv)
  show ?thesis
  proof (cases r1)
    case (Inl e)
    with assms h m l1 show ?thesis
      by (simp add: run_benchmarks_def seq_def bind_def)
  next
    case (Inr temp_dir)
    have l2: "rmtree_calls (snd (run_body env temp_dir w1)) = rmtree_calls w"
      using keeps_run_body [of env temp_dir] l1 unfolding keeps_log_def by simp
    from assms h m Inr
    have "try_finally (run_body env temp_dir) (rmtree temp_dir True) w1 = (r, w')"
      by (simp add: run_benchmarks_def seq_def bind_def)
    then have "r = fst (run_body env temp_dir w1)"
      and "w' = (snd (run_body env temp_dir w1))
                  \<lparr>fs := remove_tree temp_dir (fs (snd (run_body env temp_dir w1))),
                   rmtree_calls := rmtree_calls (snd (run_body env temp_dir w1)) @ [temp_dir]\<rparr>"
      by (simp_all add: try_finally_rmtree)
    with h m Inr l2 show ?thesis
      by (simp add: rmtree_gone)
  qed
qed

section \<open>A run that completes\<close>

lemma run_inv_fs: "fs w = fs w' \<Longrightarrow> run_inv t art w = run_inv t art w'"
  by (simp add: run_inv_def)

lemma ok_print_run: "ok (run_inv t art) (print l) (run_inv t art)"
  by (simp add: ok_def print_def run_inv_def)

lemma ok_perf_counter_run: "ok (run_inv t art) (perf_counter c) (run_inv t art)"
  by (simp add: ok_def perf_counter_def run_inv_def)

lemma ok_on_fs_run:
  "(\<And>fsys. f fsys = (Inr c, fsys)) \<Longrightarrow> ok (run_inv t art) (on_fs f) (run_inv t art)"
  by (simp add: ok_def on_fs_def run_inv_def)

lemma ok_lift_run: "ok (run_inv t art) (lift (Inr x)) (run_inv t art)"
  by (simp add: ok_def lift_def return_def)

lemma ok_case_prod: "(\<And>a b. ok I (f a b) J) \<Longrightarrow> ok I (case_prod f x) J"
  by (cases x) simp

lemma ok_bind_inv: "ok I m I \<Longrightarrow> (\<And>x. ok I (f x) I) \<Longrightarrow> ok I (bind m f) I"
  by (rule ok_bind)

lemma ok_seq_inv: "ok I m I \<Longrightarrow> ok I k I \<Longrightarrow> ok I (seq m k) I"
  by (rule ok_seq)

lemma ok_case_prod_inv: "(\<And>a b. ok I (f a b) I) \<Longrightarrow> ok I (case_prod f x) I"
  by (rule ok_case_prod)

lemma ok_benchmark_operation_run:
  assumes "ok (run_inv t art) op (run_inv t art)"
  shows "ok (run_inv t art) (benchmark_operation c name op) (run_inv t art)"
  unfolding benchmark_operation_def Let_def
  by (intro ok_bind_inv ok_seq_inv ok_perf_counter_run ok_print_run ok_return assms)

lemma gen_dirs_are_gen_paths: "p \<in> set (gen_dirs t v enh) \<Longrightarrow> gen_dir_path t p"
proof -
  assume "p \<in> set (gen_dirs t v enh)"
  then obtain d where "gen_dir_path t d" "p \<in> set (ancestors_and_self d)"
    using gen_dir_pathI [of t]
    by (auto simp: gen_dirs_def report_dirs_def split: if_splits)
  then show ?thesis
    using ancestors_prefix gen_dir_path_prefix by blast
qed

lemma ok_generator_run:
  assumes nz: "enh \<and> 0 < v \<longrightarrow> n \<noteq> 0" and art: "\<not> gen_dir_path t art"
  shows "ok (run_inv t art) (create_performance_test_project t n v kb enh) (run_inv t art)"
  unfolding ok_def
proof (intro allI impI)
  fix w :: world
  assume i: "run_inv t art w"
  then have c: "gen_compat t (fs w)" by (simp add: run_inv_def)
  let ?w = "apply_effect (gen_dirs t v enh) (gen_writes t n v kb enh) w"
  have run: "create_performance_test_project t n v kb enh w = (Inr (project_dir t), ?w)"
    by (rule generator_result [OF c nz])
  from c have "gen_inv t [] w" by (simp add: gen_inv_def)
  with ok_generator [OF nz, of t kb] run have c': "gen_compat t (fs ?w)"
    unfolding ok_def gen_inv_def by fastforce
  from i have "is_dir (fs ?w) (butlast art)"
    by (simp add: run_inv_def is_dir_apply_effect)
  moreover from i art have "\<not> is_dir (fs ?w) art"
    using gen_dirs_are_gen_paths [of art t v enh]
    by (auto simp: run_inv_def is_dir_def dirs_apply_effect)
  ultimately have "run_inv t art ?w" using c' by (simp add: run_inv_def)
  with run show "\<exists>r w'. create_performance_test_project t n v kb enh w = (Inr r, w')
                    \<and> run_inv t art w'" by blast
qed

lemma ok_benchmark_small_run:
  assumes "\<not> gen_dir_path t art"
  shows "ok (run_inv t art) (benchmark_small example_env t res) (run_inv t art)"
  unfolding benchmark_small_def Let_def
  by (intro ok_seq_inv ok_bind_inv ok_case_prod_inv ok_print_run ok_return
      ok_benchmark_operation_run ok_generator_run assms)
    (simp_all add: example_env_def null_connector_def ok_lift_run ok_on_fs_run)

lemma ok_benchmark_medium_run:
  assumes "\<not> gen_dir_path t art"
  shows "ok (run_inv t art) (benchmark_medium example_env t res) (run_inv t art)"
  unfolding benchmark_medium_def Let_def
  by (intro ok_seq_inv ok_bind_inv ok_case_prod_inv ok_print_run ok_return
      ok_benchmark_operation_run ok_generator_run assms)
    (simp_all add: example_env_def null_connector_def ok_lift_run ok_on_fs_run)

lemma ok_benchmark_large_run:
  assumes "\<not> gen_dir_path t art"
  shows "ok (run_inv t art) (benchmark_large example_env t res) (run_inv t art)"
  unfolding benchmark_large_def Let_def
  by (intro ok_seq_inv ok_bind_inv ok_case_prod_inv ok_print_run ok_return
      ok_benchmark_operation_run ok_generator_run assms)
    (simp_all add: example_env_def null_connector_def ok_lift_run ok_on_fs_run)

lemma tiers_nonempty:
  assumes "map operation bs = all_labels"
  shows "small_ops bs \<noteq> []" and "medium_ops bs \<noteq> []" and "large_ops bs \<noteq> []"
proof -
  have m: "\<exists>b \<in> set bs. operation b = l" if "l \<in> set all_labels" for l
    using that assms by (metis (no_types) imageE set_map)
  from m [of "''load_small''"] obtain b1 where "b1 \<in> set bs" "operation b1 = ''load_small''"
    by (auto simp: all_labels_def)
  then have "b1 \<in> set bs" "str_in ''small'' (operation b1)" by simp_all
  then show "small_ops bs \<noteq> []"
    unfolding small_ops_def filter_empty_conv by blast
  from m [of "''load_medium''"] obtain b2 where "b2 \<in> set bs" "operation b2 = ''load_medium''"
    by (auto simp: all_labels_def)
  then have "b2 \<in> set bs" "str_in ''medium'' (operation b2)" by simp_all
  then show "medium_ops bs \<noteq> []"
    unfolding medium_ops_def filter_empty_conv by blast
  from m [of "''load_large''"] obtain b3 where "b3 \<in> set bs" "operation b3 = ''load_large''"
    by (auto simp: all_labels_def)
  then have "b3 \<in> set bs" "str_in ''large'' (operation b3)" by simp_all
  then show "large_ops bs \<noteq> []"
    unfolding large_ops_def filter_empty_conv by blast
qed

lemma summary_analysis_returns:
  assumes "small_ops (benchmarks res) \<noteq> []" and "medium_ops (benchmarks res) \<noteq> []"
    and "large_ops (benchmarks res) \<noteq> []"
  shows "\<exists>r w'. summary_analysis res w = (Inr r, w') \<and> fs w' = fs w"
  using assms
  by (simp add: summary_analysis_def scaling_analysis_def avg_ms_cases prog_defs Let_def)

lemma save_results_returns:
  assumes "is_dir (fs w) (cwd env)" and "\<not> is_dir (fs w) (artifact_file env)"
  shows "\<exists>w'. save_results env res w = (Inr (), w')"
  using assms
  by (simp add: save_results_def artifact_file_def write_file_def prog_defs)

lemma run_body_example_returns:
  assumes i: "run_inv t (artifact_file example_env) w"
    and a: "\<not> gen_dir_path t (artifact_file example_env)"
  shows "fst (run_body example_env t w) = Inr ()"
proof -
  let ?I = "run_inv t (artifact_file example_env)"
  let ?e = "\<lparr>benchmarks = [], summary = []\<rparr>"
  from ok_benchmark_small_run [OF a, of ?e] i obtain r1 w1
    where s1: "benchmark_small example_env t ?e w = (Inr r1, w1)" and i1: "?I w1"
    unfolding ok_def by blast
  from ok_benchmark_medium_run [OF a, of r1] i1 obtain r2 w2
    where s2: "benchmark_medium example_env t r1 w1 = (Inr r2, w2)" and i2: "?I w2"
    unfolding ok_def by blast
  from ok_benchmark_large_run [OF a, of r2] i2 obtain r3 w3
    where s3: "benchmark_large example_env t r2 w2 = (Inr r3, w3)" and i3: "?I w3"
    unfolding ok_def by blast
  from s1 post_benchmark_small [of example_env t ?e] have e1: "extends ?e small_labels r1"
    unfolding post_def by blast
  from s2 post_benchmark_medium [of example_env t r1] have e2: "extends r1 medium_labels r2"
    unfolding post_def by blast
  from s3 post_benchmark_large [of example_env t r2] have e3: "extends r2 large_labels r3"
    unfolding post_def by blast
  from e1 e2 e3 have l: "map operation (benchmarks r3) = all_labels"
    by (auto simp: extends_def small_labels_def medium_labels_def large_labels_def all_labels_def)
  from summary_analysis_returns [OF tiers_nonempty [OF l], of w3] obtain r4 w4
    where s4: "summary_analysis r3 w3 = (Inr r4, w4)" and f4: "fs w4 = fs w3" by blast
  from i3 f4 have "is_dir (fs w4) (cwd example_env)" "\<not> is_dir (fs w4) (artifact_file example_env)"
    by (simp_all add: run_inv_def artifact_file_def)
  from save_results_returns [OF this, of r4] obtain w5
    where s5: "save_results example_env r4 w4 = (Inr (), w5)" by blast
  from s1 s2 s3 s4 s5 show ?thesis
    by (simp add: run_body_def bind_def)
qed

lemma example_run_inv: "run_inv [''tmp''] (artifact_file example_env) example_world"
  using fresh_compat [OF example_fresh]
  by (simp add: run_inv_def artifact_file_def example_env_def example_world_def is_dir_def)

lemma example_artifact_apart: "\<not> gen_dir_path [''tmp''] (artifact_file example_env)"
  by (simp add: gen_dir_path_def artifact_file_def example_env_def path_defs)

lemma example_run_body:
  "run_body example_env [''tmp''] example_world =
     (Inr (), snd (run_body example_env [''tmp''] example_world))"
  using run_body_example_returns [OF example_run_inv example_artifact_apart]
  by (metis prod.collapse)

theorem ten_samples_in_order_witness:
  "\<exists>res. read_file (fs (snd (run_body example_env [''tmp''] example_world)))
            (artifact_file example_env) = Some (JsonDump (results_json res) (Some 2))
         \<and> length (benchmarks res) = 10
         \<and> map operation (benchmarks res) =
             [''load_small'', ''validate_small'', ''fix_dax_small'', ''rename_table_small'',
              ''load_medium'', ''validate_medium'', ''fix_dax_medium'',
              ''load_large'', ''validate_large'', ''fix_dax_large'']"
  by (rule ten_samples_in_order [OF example_run_body])

theorem summary_is_three_averages_witness:
  "\<exists>bs. read_file (fs (snd (run_body example_env [''tmp''] example_world)))
           (artifact_file example_env) =
           Some (JsonDump
             (JObj [(''benchmarks'', JArr (map sample_json bs)),
                    (''summary'', JObj [
                       (''small_avg_ms'', JNum (mean_ms (small_ops bs))),
                       (''medium_avg_ms'', JNum (mean_ms (medium_ops bs))),
                       (''large_avg_ms'', JNum (mean_ms (large_ops bs)))])])
             (Some 2))"
  by (rule summary_is_three_averages [OF example_run_body])

section \<open>A run whose connector fails\<close>

lemma generator_keeps_compat:
  assumes c: "gen_compat t (fs w)" and nz: "enh \<and> 0 < v \<longrightarrow> n \<noteq> 0"
  shows "gen_compat t (fs (apply_effect (gen_dirs t v enh) (gen_writes t n v kb enh) w))"
proof -
  from c have "gen_inv t [] w" by (simp add: gen_inv_def)
  with ok_generator [OF nz, of t kb] generator_result [OF c nz, of kb] show ?thesis
    unfolding ok_def gen_inv_def by fastforce
qed

lemma rmtree_clean:
  assumes "gen_compat t fsys" and "undeletable fsys = []"
  shows "rmtree_error t fsys = None"
proof -
  have "gen_dir_path t t" by (simp add: gen_dir_path_def tables_dir_def semantic_dir_def project_dir_def)
  with assms(1) have "\<not> is_file fsys t" "is_dir fsys t"
    by (auto simp: gen_compat_def is_file_def)
  moreover from assms(2) have "\<not> is_dir (remove_tree t fsys) t"
    by (simp add: remove_tree_def is_dir_def stays_def)
  ultimately show ?thesis by (simp add: rmtree_error_def)
qed

lemma failing_body:
  assumes f: "fresh_dir (fs w) t"
  shows "fst (run_body failing_env t w) = Inl (ConnectorOperationError ''unavailable'')"
    and "fs (snd (run_body failing_env t w))
           = fs (apply_effect (gen_dirs t 20 True) (gen_writes t 10 20 5 True) w)"
proof -
  let ?w = "w\<lparr>stdout := stdout w
      @ [[Lit ([CHR ''\<newline>''] @ ''BENCHMARK 1: Small Project (10 tables, 20 visuals)'')],
         [Lit (rule_line CHR ''-'')]]\<rparr>"
  from f have f': "fresh_dir (fs ?w) t" by simp
  have g: "create_performance_test_project t 10 20 5 True ?w =
             (Inr (project_dir t), apply_effect (gen_dirs t 20 True) (gen_writes t 10 20 5 True) ?w)"
    by (rule generator_on_fresh [OF f']) simp
  have b: "benchmark_small failing_env t \<lparr>benchmarks = [], summary = []\<rparr> w =
             (Inl (ConnectorOperationError ''unavailable''),
              apply_effect (gen_dirs t 20 True) (gen_writes t 10 20 5 True) ?w)"
    using g by (simp add: benchmark_small_def prog_defs failing_env_def)
  then show "fst (run_body failing_env t w) = Inl (ConnectorOperationError ''unavailable'')"
    by (simp add: run_body_def bind_def)
  from b show "fs (snd (run_body failing_env t w))
           = fs (apply_effect (gen_dirs t 20 True) (gen_writes t 10 20 5 True) w)"
    by (simp add: run_body_def bind_def apply_effect_def)
qed

lemma failing_mkdtemp:
  "\<exists>w1. mkdtemp failing_env ''pbip_perf_test_'' (snd (print_header example_world))
           = (Inr [''tmp'', ''pbip_perf_test_0''], w1)
        \<and> fresh_dir (fs w1) [''tmp'', ''pbip_perf_test_0''] \<and> undeletable (fs w1) = []"
  by (simp add: mkdtemp_def failing_env_def example_env_def print_header_def prog_defs
      example_world_def is_dir_def is_file_def fresh_dir_def)

theorem scratch_root_removed_once_witness:
  "fst (run_benchmarks failing_env example_world) = Inl (ConnectorOperationError ''unavailable'')
   \<and> rmtree_calls (snd (run_benchmarks failing_env example_world))
       = [[''tmp'', ''pbip_perf_test_0'']]
   \<and> \<not> is_dir (fs (snd (run_benchmarks failing_env example_world)))
         [''tmp'', ''pbip_perf_test_0'']"
proof -
  let ?t = "[''tmp'', ''pbip_perf_test_0'']"
  from failing_mkdtemp obtain w1
    where m: "mkdtemp failing_env ''pbip_perf_test_'' (snd (print_header example_world))
                = (Inr ?t, w1)"
      and f: "fresh_dir (fs w1) ?t" and u: "undeletable (fs w1) = []" by blast
  have c: "gen_compat ?t (fs (snd (run_body failing_env ?t w1)))"
    unfolding failing_body(2) [OF f]
    by (rule generator_keeps_compat [OF fresh_compat [OF f]]) simp
  have u': "undeletable (fs (snd (run_body failing_env ?t w1))) = []"
    unfolding failing_body(2) [OF f] using u by (simp add: apply_effect_def)
  have e: "rmtree_error ?t (fs (snd (run_body failing_env ?t w1))) = None"
    by (rule rmtree_clean [OF c u'])
  have "run_benchmarks failing_env example_world =
          (fst (run_benchmarks failing_env example_world),
           snd (run_benchmarks failing_env example_world))" by simp
  moreover have "rmtree_calls example_world = []" by (simp add: example_world_def)
  ultimately have
    "fst (run_benchmarks failing_env example_world) = Inl (ConnectorOperationError ''unavailable'')
     \<and> rmtree_calls (snd (run_benchmarks failing_env example_world)) = [?t]
     \<and> fs (snd (run_benchmarks failing_env example_world))
         = remove_tree ?t (fs (snd (run_body failing_env ?t w1)))
     \<and> \<not> is_dir (fs (snd (run_benchmarks failing_env example_world))) ?t"
    using scratch_root_removed_once [of failing_env example_world
        "fst (run_benchmarks failing_env example_world)"
        "snd (run_benchmarks failing_env example_world)"]
    by (simp add: m e failing_body(1) [OF f] rmtree_gone [OF e])
  then show ?thesis by blast
qed

end
